theory Spec2Isabelle
  imports Complex_Main
begin

section \<open>NumPy arrays and their slices\<close>

text \<open>
  The notebooks compute on one-dimensional NumPy arrays of double precision numbers.
  An array is modelled as a list and a double as a real number: every statement below
  is about the arithmetic the code writes down, evaluated exactly, and says nothing
  about rounding, overflow, infinities or NaN.  The exceptions Python raises are
  values of \<open>py_error\<close>; a computation that may raise returns \<open>py_error + 'a\<close>.
  The time loops also copy the field into \<open>to_plot\<close> at chosen steps; the copies are
  only plotted, never read back, and are left out of the model.
\<close>

datatype py_error = IndexError | ValueError | ZeroDivisionError | LinAlgError

text \<open>The three slices the stencils read: \<^verbatim>\<open>a[0:-2]\<close>, \<^verbatim>\<open>a[1:-1]\<close> and \<^verbatim>\<open>a[2:]\<close>.
  A slice never raises; on a short array it is empty.\<close>

definition slice_0_m2 :: "'a list \<Rightarrow> 'a list" where
  "slice_0_m2 a = take (length a - 2) a"

definition slice_1_m1 :: "'a list \<Rightarrow> 'a list" where
  "slice_1_m1 a = take (length a - 2) (drop 1 a)"

definition slice_2 :: "'a list \<Rightarrow> 'a list" where
  "slice_2 a = drop 2 a"

text \<open>The slice assignment \<^verbatim>\<open>a[1:-1] = vs\<close>, for \<open>vs\<close> of the length of the slice.\<close>

definition set_slice_1_m1 :: "'a list \<Rightarrow> 'a list \<Rightarrow> 'a list" where
  "set_slice_1_m1 a vs = take 1 a @ vs @ drop (max 1 (length a - 1)) a"

text \<open>Element-wise combination of three arrays of one shape.\<close>

definition map3 :: "('a \<Rightarrow> 'b \<Rightarrow> 'c \<Rightarrow> 'd) \<Rightarrow> 'a list \<Rightarrow> 'b list \<Rightarrow> 'c list \<Rightarrow> 'd list" where
  "map3 f as bs cs = map (\<lambda>(a, b, c). f a b c) (zip as (zip bs cs))"

section \<open>Explicit diffusion: the FTCS notebook\<close>

text \<open>
  \<^verbatim>\<open>alpha = bigd*deltat_sec/deltax**2\<close> on Python floats: a zero \<open>deltax\<close> raises.
\<close>

definition ftcs_alpha :: "real \<Rightarrow> real \<Rightarrow> real \<Rightarrow> py_error + real" where
  "ftcs_alpha bigd deltat_sec deltax =
     (if deltax ^ 2 = 0 then Inl ZeroDivisionError else Inr (bigd * deltat_sec / deltax ^ 2))"

text \<open>
  One pass through the body of the time loop:
  \<^verbatim>\<open>
    uu_old       = copy.deepcopy(uu_cur)
    uu_cur[1:-1] = alpha*uu_old[0:-2] + (1-2*alpha)*uu_old[1:-1] + alpha*uu_old[2:]
    uu_cur[0]    = copy.deepcopy(uu_left_dirich)
    uu_cur[-1]   = copy.deepcopy(uu_right_dirich)
  \<close>
  The three slices of \<open>uu_old\<close> always have one shape, so the right-hand side never
  raises; the two index assignments raise on an empty array.
\<close>

definition ftcs_step :: "real \<Rightarrow> real \<Rightarrow> real \<Rightarrow> real list \<Rightarrow> py_error + real list" where
  "ftcs_step alpha uu_left_dirich uu_right_dirich uu_cur =
     (let uu_old = uu_cur;
          rhs = map3 (\<lambda>a b c. alpha * a + (1 - 2 * alpha) * b + alpha * c)
                  (slice_0_m2 uu_old) (slice_1_m1 uu_old) (slice_2 uu_old);
          uu_cur1 = set_slice_1_m1 uu_cur rhs
      in if uu_cur1 = [] then Inl IndexError
         else Inr ((uu_cur1[0 := uu_left_dirich])[length uu_cur1 - 1 := uu_right_dirich]))"

text \<open>\<^verbatim>\<open>for tt in range(nsteps)\<close>: the field after \<open>nsteps\<close> passes.\<close>

fun ftcs_loop :: "real \<Rightarrow> real \<Rightarrow> real \<Rightarrow> nat \<Rightarrow> real list \<Rightarrow> py_error + real list" where
  "ftcs_loop alpha l r 0 uu_cur = Inr uu_cur"
| "ftcs_loop alpha l r (Suc nsteps) uu_cur =
     (case ftcs_step alpha l r uu_cur of
        Inl e \<Rightarrow> Inl e
      | Inr uu_next \<Rightarrow> ftcs_loop alpha l r nsteps uu_next)"

section \<open>Derivative estimators: the sine notebook\<close>

text \<open>
  The three loops of the notebook, each followed by its boundary assignments:
  \<^verbatim>\<open>
    fd_dudx = np.zeros(numx)
    for ii in range(numx-1):
        fd_dudx[ii] = (uux[ii+1]-uux[ii])/deltax
    fd_dudx[-1] = (uux[-1]-uux[-2])/deltax
  \<close>
  and likewise for \<open>bd_dudx\<close> and \<open>cd_dudx\<close>.  \<open>numx\<close> is the length of \<open>uux\<close>.  Inside
  the loops every index is in range; the boundary assignments read \<^verbatim>\<open>uux[-2]\<close> or
  \<^verbatim>\<open>uux[1]\<close> and raise on fewer than two samples.  A zero \<open>deltax\<close> does not raise in
  NumPy (the quotient is an infinity or NaN); here the quotient is the one of the reals.
\<close>

definition fd_dudx :: "real \<Rightarrow> real list \<Rightarrow> py_error + real list" where
  "fd_dudx deltax uux =
     (let numx = length uux;
          fd = fold (\<lambda>ii fd. fd[ii := (uux ! (ii + 1) - uux ! ii) / deltax])
                 [0..<numx - 1] (replicate numx 0)
      in if numx < 2 then Inl IndexError
         else Inr (fd[numx - 1 := (uux ! (numx - 1) - uux ! (numx - 2)) / deltax]))"

definition bd_dudx :: "real \<Rightarrow> real list \<Rightarrow> py_error + real list" where
  "bd_dudx deltax uux =
     (let numx = length uux;
          bd = fold (\<lambda>ii bd. bd[ii := (uux ! ii - uux ! (ii - 1)) / deltax])
                 [1..<numx] (replicate numx 0)
      in if numx < 2 then Inl IndexError
         else Inr (bd[0 := (uux ! 1 - uux ! 0) / deltax]))"

definition cd_dudx :: "real \<Rightarrow> real list \<Rightarrow> py_error + real list" where
  "cd_dudx deltax uux =
     (let numx = length uux;
          cd = fold (\<lambda>ii cd. cd[ii := (uux ! (ii + 1) - uux ! (ii - 1)) / (2 * deltax)])
                 [1..<numx - 1] (replicate numx 0)
      in if numx < 2 then Inl IndexError
         else Inr ((cd[numx - 1 := (uux ! (numx - 1) - uux ! (numx - 2)) / deltax])
                     [0 := (uux ! 1 - uux ! 0) / deltax]))"

section \<open>Implicit diffusion: the backward-in-time notebook\<close>

text \<open>
  Matrices are lists of rows.  \<open>diags3\<close> is
  \<^verbatim>\<open>diags([lowdiag,maindiag,updiag],[-1,0,1]).toarray()\<close> for a main diagonal of
  \<open>n\<close> entries and two side diagonals of \<open>n - 1\<close>: entry \<open>(i, i)\<close> is \<open>maindiag[i]\<close>, entry
  \<open>(i, i+1)\<close> is \<open>updiag[i]\<close>, entry \<open>(j+1, j)\<close> is \<open>lowdiag[j]\<close>, all others are zero.
\<close>

type_synonym matrix = "real list list"

definition diags3 :: "real list \<Rightarrow> real list \<Rightarrow> real list \<Rightarrow> matrix" where
  "diags3 lowdiag maindiag updiag =
     (let n = length maindiag
      in map (\<lambda>i. map (\<lambda>j. if j = i then maindiag ! i
                            else if j = i + 1 then updiag ! i
                            else if i = j + 1 then lowdiag ! j
                            else 0) [0..<n]) [0..<n])"

text \<open>
  \<^verbatim>\<open>
    updiag        = -alpha*np.ones(xnum-1)
    updiag[0]     = 0
    maindiag      = (1+2*alpha)*np.ones(xnum)
    maindiag[0]   = 1
    maindiag[-1]  = 1
    lowdiag       = -alpha*np.ones(xnum-1)
    lowdiag[-1]   = 0
    hmat          = diags([lowdiag,maindiag,updiag],[-1,0,1]).toarray()
  \<close>
  With no grid point \<^verbatim>\<open>np.ones(-1)\<close> raises ValueError; with one, \<^verbatim>\<open>updiag[0] = 0\<close>
  indexes an empty array.
\<close>

definition hmat :: "real \<Rightarrow> nat \<Rightarrow> py_error + matrix" where
  "hmat alpha xnum =
     (if xnum = 0 then Inl ValueError
      else if xnum = 1 then Inl IndexError
      else
        let updiag = (replicate (xnum - 1) (- alpha))[0 := 0];
            maindiag = ((replicate xnum (1 + 2 * alpha))[0 := 1])[xnum - 1 := 1];
            lowdiag = (replicate (xnum - 1) (- alpha))[xnum - 2 := 0]
        in Inr (diags3 lowdiag maindiag updiag))"

text \<open>Matrix times vector (\<^verbatim>\<open>invhmat @ uu_old\<close>), matrix times matrix, the identity.\<close>

definition dot :: "real list \<Rightarrow> real list \<Rightarrow> real" where
  "dot xs ys = sum_list (map2 (*) xs ys)"

definition mat_vec :: "matrix \<Rightarrow> real list \<Rightarrow> real list" where
  "mat_vec a v = map (\<lambda>row. dot row v) a"

definition col :: "matrix \<Rightarrow> nat \<Rightarrow> real list" where
  "col b j = map (\<lambda>row. row ! j) b"

definition mat_mul :: "nat \<Rightarrow> matrix \<Rightarrow> matrix \<Rightarrow> matrix" where
  "mat_mul n a b = map (\<lambda>i. map (\<lambda>j. dot (a ! i) (col b j)) [0..<n]) [0..<n]"

definition identity :: "nat \<Rightarrow> matrix" where
  "identity n = map (\<lambda>i. map (\<lambda>j. if i = j then 1 else 0) [0..<n]) [0..<n]"

definition is_square :: "nat \<Rightarrow> matrix \<Rightarrow> bool" where
  "is_square n a = (length a = n \<and> list_all (\<lambda>row. length row = n) a)"

text \<open>
  \<^verbatim>\<open>np.linalg.inv\<close> is NumPy's, not the notebook's.  It is a parameter of the model:
  a function from matrices to matrices that may raise, of which the theorems assume what
  its documentation promises, that a matrix it returns is the inverse of its argument.
\<close>

definition is_inverse :: "nat \<Rightarrow> matrix \<Rightarrow> matrix \<Rightarrow> bool" where
  "is_inverse n a b =
     (is_square n b \<and> mat_mul n a b = identity n \<and> mat_mul n b a = identity n)"

definition inv_spec :: "(matrix \<Rightarrow> py_error + matrix) \<Rightarrow> bool" where
  "inv_spec linalg_inv =
     (\<forall>a b. linalg_inv a = Inr b \<longrightarrow> is_inverse (length a) a b)"

text \<open>
  One pass through the body of the time loop:
  \<^verbatim>\<open>
    uu_old = copy.deepcopy(uu_cur)
    uu_old = uu_old.reshape((xnum,1))
    uu_cur = (invhmat @ uu_old)
    uu_cur = uu_cur.flatten()
  \<close>
  \<open>reshape\<close> raises unless the field has \<open>xnum\<close> entries, the product unless the matrix
  has \<open>xnum\<close> columns.  Nothing is assigned to the boundary points after the product.
\<close>

definition implicit_step :: "nat \<Rightarrow> matrix \<Rightarrow> real list \<Rightarrow> py_error + real list" where
  "implicit_step xnum invhmat uu_cur =
     (let uu_old = uu_cur
      in if length uu_old \<noteq> xnum then Inl ValueError
         else if \<not> list_all (\<lambda>row. length row = xnum) invhmat then Inl ValueError
         else Inr (mat_vec invhmat uu_old))"

fun implicit_loop :: "nat \<Rightarrow> matrix \<Rightarrow> nat \<Rightarrow> real list \<Rightarrow> py_error + real list" where
  "implicit_loop xnum invhmat 0 uu_cur = Inr uu_cur"
| "implicit_loop xnum invhmat (Suc nsteps) uu_cur =
     (case implicit_step xnum invhmat uu_cur of
        Inl e \<Rightarrow> Inl e
      | Inr uu_next \<Rightarrow> implicit_loop xnum invhmat nsteps uu_next)"

text \<open>
  The grid and the initial field of both diffusion notebooks:
  \<^verbatim>\<open>
    xgrid  = np.arange(0,1e5,deltax)
    uu_0   = uu_base*np.ones(xnum)
    uu_0   = uu_0 + uu_spill*np.exp(-(1/2)*xgrid**2/spill_scale**2)
  \<close>
  \<open>arange\<close> is given for a positive step: \<open>\<lceil>(stop - start) / step\<rceil>\<close> points from \<open>start\<close>.
\<close>

definition arange :: "real \<Rightarrow> real \<Rightarrow> real \<Rightarrow> real list" where
  "arange start stop step =
     map (\<lambda>i. start + real i * step) [0..<nat \<lceil>(stop - start) / step\<rceil>]"

definition uu_0 :: "real \<Rightarrow> real \<Rightarrow> real \<Rightarrow> real list \<Rightarrow> real list" where
  "uu_0 uu_base uu_spill spill_scale xgrid =
     map2 (+) (map (\<lambda>one. uu_base * one) (replicate (length xgrid) 1))
              (map (\<lambda>x. uu_spill * exp (- (1 / 2) * x ^ 2 / spill_scale ^ 2)) xgrid)"

text \<open>
  The implicit notebook from the declaration of the boundary constants to the end of the
  time loop.  The matrix and its inverse are built once, before the loop; the loop is
  given the inverse.  \<open>uu_left_dirich\<close> and \<open>uu_right_dirich\<close> are declared and nothing
  below their declaration mentions them.
\<close>

definition implicit_notebook ::
  "(matrix \<Rightarrow> py_error + matrix) \<Rightarrow> real \<Rightarrow> real \<Rightarrow> real \<Rightarrow> nat \<Rightarrow> real list
     \<Rightarrow> py_error + real list" where
  "implicit_notebook linalg_inv alpha uu_left_dirich uu_right_dirich nsteps uu_init =
     (let xnum = length uu_init;
          uu_cur = uu_init
      in case hmat alpha xnum of
           Inl e \<Rightarrow> Inl e
         | Inr h \<Rightarrow>
             (case linalg_inv h of
                Inl e \<Rightarrow> Inl e
              | Inr invhmat \<Rightarrow> implicit_loop xnum invhmat nsteps uu_cur))"

section \<open>Ballistic trajectory: the forward Euler notebook\<close>

text \<open>
  \<^verbatim>\<open>
    def analytic_ballistic(xpos,uinit,winit,gravity=9.81):
        zpos = -(gravity/2)*(1/uinit**2)*xpos**2+(winit/uinit)*xpos
        return(zpos)
  \<close>
  \<open>uinit\<close> is a Python number, so a zero \<open>uinit\<close> raises.
\<close>

definition analytic_ballistic :: "real \<Rightarrow> real \<Rightarrow> real \<Rightarrow> real \<Rightarrow> py_error + real" where
  "analytic_ballistic xpos uinit winit gravity =
     (if uinit ^ 2 = 0 \<or> uinit = 0 then Inl ZeroDivisionError
      else Inr (- (gravity / 2) * (1 / uinit ^ 2) * xpos ^ 2 + (winit / uinit) * xpos))"

record ballistic_state =
  xxfull :: "real list"
  nmr_zzfull :: "real list"
  atic_zzfull :: "real list"

text \<open>The three arrays of \<open>nsteps\<close> zeros with their first entries set.\<close>

definition ballistic_init :: "nat \<Rightarrow> real \<Rightarrow> real \<Rightarrow> py_error + ballistic_state" where
  "ballistic_init nsteps xx0 zz0 =
     (if nsteps = 0 then Inl IndexError
      else Inr \<lparr>xxfull = (replicate nsteps 0)[0 := xx0],
                nmr_zzfull = (replicate nsteps 0)[0 := zz0],
                atic_zzfull = (replicate nsteps 0)[0 := zz0]\<rparr>)"

text \<open>
  One pass through the body of the loop, for the loop index \<open>kk\<close>:
  \<^verbatim>\<open>
    xxfull[kk+1]      = uu0*(kk+1)*deltat
    nmr_zzfull[kk+1]  = nmr_zzfull[kk]+deltat*(ww0-grv*(kk+1)*deltat)
    atic_zzfull[kk+1] = analytic_ballistic(xxfull[kk+1],uu0,ww0,grv)
    atic_zzfull[kk+1] = np.maximum(atic_zzfull[kk+1],0)
    nmr_zzfull[kk+1]  = np.maximum(nmr_zzfull[kk+1],0)
  \<close>
\<close>

definition euler_step ::
  "real \<Rightarrow> real \<Rightarrow> real \<Rightarrow> real \<Rightarrow> nat \<Rightarrow> ballistic_state \<Rightarrow> py_error + ballistic_state" where
  "euler_step uu0 ww0 grv deltat kk s =
     (if length (xxfull s) \<le> kk + 1 \<or> length (nmr_zzfull s) \<le> kk + 1
         \<or> length (atic_zzfull s) \<le> kk + 1 then Inl IndexError
      else
        let xx = (xxfull s)[kk + 1 := uu0 * real (kk + 1) * deltat];
            nmr = (nmr_zzfull s)[kk + 1 :=
                    nmr_zzfull s ! kk + deltat * (ww0 - grv * real (kk + 1) * deltat)]
        in case analytic_ballistic (xx ! (kk + 1)) uu0 ww0 grv of
             Inl e \<Rightarrow> Inl e
           | Inr zpos \<Rightarrow>
               let atic = (atic_zzfull s)[kk + 1 := zpos];
                   atic = atic[kk + 1 := max (atic ! (kk + 1)) 0];
                   nmr = nmr[kk + 1 := max (nmr ! (kk + 1)) 0]
               in Inr \<lparr>xxfull = xx, nmr_zzfull = nmr, atic_zzfull = atic\<rparr>)"

text \<open>The state after the passes \<open>kk = 0, \<dots>, n - 1\<close>.\<close>

fun euler_loop ::
  "real \<Rightarrow> real \<Rightarrow> real \<Rightarrow> real \<Rightarrow> nat \<Rightarrow> ballistic_state \<Rightarrow> py_error + ballistic_state" where
  "euler_loop uu0 ww0 grv deltat 0 s = Inr s"
| "euler_loop uu0 ww0 grv deltat (Suc n) s =
     (case euler_loop uu0 ww0 grv deltat n s of
        Inl e \<Rightarrow> Inl e
      | Inr s' \<Rightarrow> euler_step uu0 ww0 grv deltat n s')"

text \<open>Initialisation and \<^verbatim>\<open>for kk in range(nsteps-1)\<close>.\<close>

definition ballistic ::
  "real \<Rightarrow> real \<Rightarrow> real \<Rightarrow> real \<Rightarrow> real \<Rightarrow> real \<Rightarrow> nat \<Rightarrow> py_error + ballistic_state" where
  "ballistic xx0 zz0 uu0 ww0 grv deltat nsteps =
     (case ballistic_init nsteps xx0 zz0 of
        Inl e \<Rightarrow> Inl e
      | Inr s \<Rightarrow> euler_loop uu0 ww0 grv deltat (nsteps - 1) s)"

section \<open>Wave propagation: the tsunami notebook\<close>

text \<open>
  The terms of the stencil, as the loop body computes them from the previous field and
  the depth \<open>bathy_a\<close>:
  \<^verbatim>\<open>
    sp_term1 = uu_old[2:]-2*uu_old[1:-1]+uu_old[0:-2]
    sp_term2 = ((bathy_a[2:]-bathy_a[0:-2])*(uu_old[2:]-uu_old[0:-2]))
    fac1     = ((np.sqrt(grv*bathy_a)*deltat_sec/deltax)**2)[1:-1]
    fac2     = (np.sqrt(grv)*deltat_sec/(2*deltax))**2
  \<close>
\<close>

definition sp_term1 :: "real list \<Rightarrow> real list" where
  "sp_term1 uu_old = map3 (\<lambda>a b c. a - 2 * b + c) (slice_2 uu_old) (slice_1_m1 uu_old) (slice_0_m2 uu_old)"

definition sp_term2 :: "real list \<Rightarrow> real list \<Rightarrow> real list" where
  "sp_term2 bathy_a uu_old =
     map2 (*) (map2 (-) (slice_2 bathy_a) (slice_0_m2 bathy_a))
              (map2 (-) (slice_2 uu_old) (slice_0_m2 uu_old))"

definition fac1 :: "real \<Rightarrow> real \<Rightarrow> real \<Rightarrow> real list \<Rightarrow> real list" where
  "fac1 grv deltat_sec deltax bathy_a =
     slice_1_m1 (map (\<lambda>h. (sqrt (grv * h) * deltat_sec / deltax) ^ 2) bathy_a)"

definition fac2 :: "real \<Rightarrow> real \<Rightarrow> real \<Rightarrow> real" where
  "fac2 grv deltat_sec deltax = (sqrt grv * deltat_sec / (2 * deltax)) ^ 2"

text \<open>
  The loop keeps the previous field in \<open>uu_old\<close> and the present one in \<open>uu_cur\<close>; the
  field before the previous one, \<open>uu_old_2\<close>, is a copy of \<open>uu_old\<close> taken at the top of
  each pass.  Before the first pass \<open>uu_old\<close> is an array of NaN, which no real number
  models: the initial \<open>uu_old\<close> is an arbitrary array here.
\<close>

record wave_state =
  uu_old :: "real list"
  uu_cur :: "real list"

text \<open>
  The right-hand side of the interior assignment, for the loop index \<open>tt\<close>:
  \<^verbatim>\<open>
    if(tt==0):
        uu_cur[1:-1] = uu_old[1:-1] + (1/2)*fac1*sp_term1 + fac2*sp_term2
    elif(tt>0):
        uu_cur[1:-1] = -1*uu_old_2[1:-1] + 2*uu_old[1:-1] + fac1*sp_term1 + fac2*sp_term2
  \<close>
  Here \<open>prev2\<close> is the notebook's \<open>uu_old_2\<close> and \<open>prev\<close> its \<open>uu_old\<close> after the copy.
\<close>

definition wave_rhs ::
  "real \<Rightarrow> real \<Rightarrow> real \<Rightarrow> real list \<Rightarrow> nat \<Rightarrow> real list \<Rightarrow> real list \<Rightarrow> real list" where
  "wave_rhs grv deltat_sec deltax bathy_a tt prev2 prev =
     (if tt = 0 then
        map3 (\<lambda>a b c. a + b + c) (slice_1_m1 prev)
          (map2 (*) (map (\<lambda>f. (1 / 2) * f) (fac1 grv deltat_sec deltax bathy_a)) (sp_term1 prev))
          (map (\<lambda>t. fac2 grv deltat_sec deltax * t) (sp_term2 bathy_a prev))
      else
        map2 (+)
          (map3 (\<lambda>a b c. a + b + c) (map (\<lambda>u. - 1 * u) (slice_1_m1 prev2))
             (map (\<lambda>u. 2 * u) (slice_1_m1 prev))
             (map2 (*) (fac1 grv deltat_sec deltax bathy_a) (sp_term1 prev)))
          (map (\<lambda>t. fac2 grv deltat_sec deltax * t) (sp_term2 bathy_a prev)))"

text \<open>
  One pass through the body of the time loop, for the loop index \<open>tt\<close>:
  \<^verbatim>\<open>
    uu_old_2        = copy.deepcopy(uu_old)
    uu_old          = copy.deepcopy(uu_cur)
    (the four terms and the interior assignment above)
    uu_cur[0]  = copy.deepcopy(uu_cur[2])
    uu_cur[-1] = copy.deepcopy(uu_cur[-3])
  \<close>
  The notebook builds the field, the depth and the first \<open>uu_old\<close> with \<open>xnum\<close> entries
  each, and the model is of arrays of one length: where the lengths differ it returns
  ValueError (NumPy raises it too, unless a slice has a single entry and is broadcast).
  The boundary assignments raise on fewer than three points.  In the definition
  \<open>uu_prev\<close> stands for the notebook's \<open>uu_old\<close> after the copy, the name \<open>uu_old\<close>
  being the field of the state.
\<close>

definition wave_step ::
  "real \<Rightarrow> real \<Rightarrow> real \<Rightarrow> real list \<Rightarrow> nat \<Rightarrow> wave_state \<Rightarrow> py_error + wave_state" where
  "wave_step grv deltat_sec deltax bathy_a tt s =
     (let uu_old_2 = uu_old s;
          uu_prev = uu_cur s
      in if length bathy_a \<noteq> length uu_prev then Inl ValueError
         else if tt > 0 \<and> length uu_old_2 \<noteq> length uu_prev then Inl ValueError
         else
           let cur1 = set_slice_1_m1 (uu_cur s)
                        (wave_rhs grv deltat_sec deltax bathy_a tt uu_old_2 uu_prev)
           in if length cur1 < 3 then Inl IndexError
              else
                let cur2 = cur1[0 := cur1 ! 2];
                    cur3 = cur2[length cur2 - 1 := cur2 ! (length cur2 - 3)]
                in Inr \<lparr>uu_old = uu_prev, uu_cur = cur3\<rparr>)"

text \<open>The state after the passes \<open>tt = 0, \<dots>, nsteps - 1\<close>.\<close>

fun wave_loop ::
  "real \<Rightarrow> real \<Rightarrow> real \<Rightarrow> real list \<Rightarrow> nat \<Rightarrow> wave_state \<Rightarrow> py_error + wave_state" where
  "wave_loop grv deltat_sec deltax bathy_a 0 s = Inr s"
| "wave_loop grv deltat_sec deltax bathy_a (Suc nsteps) s =
     (case wave_loop grv deltat_sec deltax bathy_a nsteps s of
        Inl e \<Rightarrow> Inl e
      | Inr s' \<Rightarrow> wave_step grv deltat_sec deltax bathy_a nsteps s')"

section \<open>The updates as functions of the previous fields\<close>

text \<open>
  What the specification asks of an update: each interior value of the next field is
  computed from a copy of the previous field (and, for the wave scheme, of the field
  before it) taken before anything is written.  The two definitions below say it point
  by point; they read nothing but the copies.
\<close>

definition ftcs_from_copy :: "real \<Rightarrow> real \<Rightarrow> real \<Rightarrow> real list \<Rightarrow> real list" where
  "ftcs_from_copy alpha uu_left_dirich uu_right_dirich prev =
     map (\<lambda>j. if j = length prev - 1 then uu_right_dirich
              else if j = 0 then uu_left_dirich
              else alpha * prev ! (j - 1) + (1 - 2 * alpha) * prev ! j + alpha * prev ! (j + 1))
       [0..<length prev]"

definition wave_interior ::
  "real \<Rightarrow> real \<Rightarrow> real \<Rightarrow> real list \<Rightarrow> nat \<Rightarrow> real list \<Rightarrow> real list \<Rightarrow> nat \<Rightarrow> real" where
  "wave_interior grv deltat_sec deltax bathy_a tt prev2 prev j =
     (let lap = prev ! (j + 1) - 2 * prev ! j + prev ! (j - 1);
          cross = (bathy_a ! (j + 1) - bathy_a ! (j - 1)) * (prev ! (j + 1) - prev ! (j - 1));
          f1 = (sqrt (grv * bathy_a ! j) * deltat_sec / deltax) ^ 2;
          f2 = (sqrt grv * deltat_sec / (2 * deltax)) ^ 2
      in if tt = 0 then prev ! j + (1 / 2) * f1 * lap + f2 * cross
         else - 1 * prev2 ! j + 2 * prev ! j + f1 * lap + f2 * cross)"

text \<open>
  The first step the specification describes: with no initial velocity the field one
  step back equals the field one step ahead, and the two-level step then gives the
  previous field plus one half of both spatial terms.
\<close>

definition first_step_zero_velocity ::
  "real \<Rightarrow> real \<Rightarrow> real \<Rightarrow> real list \<Rightarrow> real list \<Rightarrow> nat \<Rightarrow> real" where
  "first_step_zero_velocity grv deltat_sec deltax bathy_a prev j =
     (let lap = prev ! (j + 1) - 2 * prev ! j + prev ! (j - 1);
          cross = (bathy_a ! (j + 1) - bathy_a ! (j - 1)) * (prev ! (j + 1) - prev ! (j - 1));
          f1 = (sqrt (grv * bathy_a ! j) * deltat_sec / deltax) ^ 2;
          f2 = (sqrt grv * deltat_sec / (2 * deltax)) ^ 2
      in prev ! j + (1 / 2) * (f1 * lap + f2 * cross))"

text \<open>
  The coefficient matrix the specification describes: identity rows first and last,
  \<open>1 + 2 * alpha\<close> on the main diagonal and \<open>- alpha\<close> beside it in every other row.
\<close>

definition implicit_coeff :: "real \<Rightarrow> nat \<Rightarrow> nat \<Rightarrow> nat \<Rightarrow> real" where
  "implicit_coeff alpha n i j =
     (if i = 0 \<or> i = n - 1 then (if j = i then 1 else 0)
      else if j = i then 1 + 2 * alpha
      else if j = i + 1 \<or> i = j + 1 then - alpha
      else 0)"

text \<open>A stand-in for \<open>np.linalg.inv\<close> that inverts one matrix and raises on every other.\<close>

definition inv_3 :: "matrix \<Rightarrow> py_error + matrix" where
  "inv_3 a = (if a = [[1, 0, 0], [- 1, 3, - 1], [0, 0, 1]]
              then Inr [[1, 0, 0], [1 / 3, 1 / 3, 1 / 3], [0, 0, 1]] else Inl LinAlgError)"

text \<open>
  What holds of the ballistic arrays after the passes \<open>kk = 0, \<dots>, n - 1\<close> from the state
  \<open>s0\<close>: the first entries are untouched, and each entry from \<open>1\<close> to \<open>n\<close> is the maximum
  of zero and, for the numerical height, one Euler step from the stored entry before
  it, for the analytic height, the parabola at the distance flown.
\<close>

definition euler_inv ::
  "real \<Rightarrow> real \<Rightarrow> real \<Rightarrow> real \<Rightarrow> nat \<Rightarrow> nat \<Rightarrow> ballistic_state \<Rightarrow> ballistic_state \<Rightarrow> bool" where
  "euler_inv uu0 ww0 grv deltat len n s0 s =
     (length (xxfull s) = len \<and> length (nmr_zzfull s) = len \<and> length (atic_zzfull s) = len \<and>
      nmr_zzfull s ! 0 = nmr_zzfull s0 ! 0 \<and> atic_zzfull s ! 0 = atic_zzfull s0 ! 0 \<and>
      (\<forall>k. 1 \<le> k \<and> k \<le> n \<longrightarrow>
         nmr_zzfull s ! k
           = max (nmr_zzfull s ! (k - 1) + deltat * (ww0 - grv * real k * deltat)) 0 \<and>
         atic_zzfull s ! k
           = max (- (grv / 2) * (1 / uu0 ^ 2) * (uu0 * real k * deltat) ^ 2
                    + (ww0 / uu0) * (uu0 * real k * deltat)) 0))"

text \<open>
  The total mass of a field, as the specification defines it: the sum of the interior
  values times the grid step, the two boundary values left out.
\<close>

definition mass :: "real \<Rightarrow> real list \<Rightarrow> real" where
  "mass deltax u = sum_list (slice_1_m1 u) * deltax"

text \<open>
  The sine notebook samples \<^verbatim>\<open>uux = sinefunc(gridx)\<close> and \<^verbatim>\<open>true_dudx = cosinefunc(gridx)\<close>
  on \<^verbatim>\<open>gridx = np.arange(xmin,xmax,step=deltax)\<close> with \<open>xmin = 0\<close> and \<open>xmax = 2*np.pi\<close>.
\<close>

definition gridx :: "real \<Rightarrow> real list" where
  "gridx deltax = arange 0 (2 * pi) deltax"

definition sinefunc :: "real list \<Rightarrow> real list" where
  "sinefunc rad = map sin rad"

definition cosinefunc :: "real list \<Rightarrow> real list" where
  "cosinefunc rad = map cos rad"

text \<open>
  The maximum absolute error of an estimate against the true derivative at the grid
  points.  (The notebook prints the residual \<^verbatim>\<open>fd_dudx-true_dudx\<close> of largest magnitude,
  rounded to three decimals; the measure here is the magnitude itself, not rounded.)
\<close>

definition max_abs_error :: "real list \<Rightarrow> real list \<Rightarrow> real" where
  "max_abs_error dudx true_dudx = Max (set (map abs (map2 (-) dudx true_dudx)))"

section \<open>Slices and the stencil\<close>

lemma length_slices:
  "length (slice_0_m2 a) = length a - 2"
  "length (slice_1_m1 a) = length a - 2"
  "length (slice_2 a) = length a - 2"
  by (simp_all add: slice_0_m2_def slice_1_m1_def slice_2_def)

lemma nth_slices:
  assumes "i < length a - 2"
  shows "slice_0_m2 a ! i = a ! i"
    and "slice_1_m1 a ! i = a ! Suc i"
    and "slice_2 a ! i = a ! Suc (Suc i)"
  using assms by (simp_all add: slice_0_m2_def slice_1_m1_def slice_2_def)

lemma length_map3:
  "length (map3 f as bs cs) = min (length as) (min (length bs) (length cs))"
  by (simp add: map3_def)

lemma nth_map3:
  "i < length as \<Longrightarrow> i < length bs \<Longrightarrow> i < length cs \<Longrightarrow>
   map3 f as bs cs ! i = f (as ! i) (bs ! i) (cs ! i)"
  by (simp add: map3_def)

lemma length_set_slice_1_m1:
  "length vs = length a - 2 \<Longrightarrow> length (set_slice_1_m1 a vs) = length a"
  by (auto simp add: set_slice_1_m1_def max_def min_def)

lemma nth_set_slice_1_m1_interior:
  "length vs = length a - 2 \<Longrightarrow> 1 \<le> j \<Longrightarrow> j + 1 < length a \<Longrightarrow>
   set_slice_1_m1 a vs ! j = vs ! (j - 1)"
  by (auto simp add: set_slice_1_m1_def nth_append min_def)

section \<open>The FTCS step\<close>

lemma ftcs_step_Inr:
  assumes "u \<noteq> []"
  shows "ftcs_step alpha l r u =
     Inr (((set_slice_1_m1 u
              (map3 (\<lambda>a b c. alpha * a + (1 - 2 * alpha) * b + alpha * c)
                 (slice_0_m2 u) (slice_1_m1 u) (slice_2 u)))[0 := l])[length u - 1 := r])"
proof -
  let ?rhs = "map3 (\<lambda>a b c. alpha * a + (1 - 2 * alpha) * b + alpha * c)
                 (slice_0_m2 u) (slice_1_m1 u) (slice_2 u)"
  have len: "length (set_slice_1_m1 u ?rhs) = length u"
    by (rule length_set_slice_1_m1) (simp add: length_map3 length_slices)
  with assms have "set_slice_1_m1 u ?rhs \<noteq> []" by auto
  with len show ?thesis by (simp add: ftcs_step_def Let_def)
qed

lemma ftcs_step_result:
  assumes "u \<noteq> []" and "ftcs_step alpha l r u = Inr v"
  shows "length v = length u"
    and "2 \<le> length u \<Longrightarrow> v ! 0 = l"
    and "v ! (length u - 1) = r"
    and "1 \<le> j \<Longrightarrow> j + 1 < length u \<Longrightarrow>
         v ! j = alpha * u ! (j - 1) + (1 - 2 * alpha) * u ! j + alpha * u ! (j + 1)"
proof -
  let ?rhs = "map3 (\<lambda>a b c. alpha * a + (1 - 2 * alpha) * b + alpha * c)
                 (slice_0_m2 u) (slice_1_m1 u) (slice_2 u)"
  have lr: "length ?rhs = length u - 2"
    by (simp add: length_map3 length_slices)
  have len: "length (set_slice_1_m1 u ?rhs) = length u"
    by (rule length_set_slice_1_m1) (rule lr)
  have v: "v = ((set_slice_1_m1 u ?rhs)[0 := l])[length u - 1 := r]"
    using assms ftcs_step_Inr [OF assms(1), of alpha l r] by simp
  show "length v = length u" by (simp add: v len)
  show "v ! (length u - 1) = r" using assms(1) by (simp add: v len)
  show "v ! 0 = l" if "2 \<le> length u"
  proof -
    from that have "0 < length (set_slice_1_m1 u ?rhs)" and "length u - 1 \<noteq> 0"
      by (auto simp add: len)
    then show ?thesis by (simp add: v)
  qed
  show "v ! j = alpha * u ! (j - 1) + (1 - 2 * alpha) * u ! j + alpha * u ! (j + 1)"
    if j: "1 \<le> j" "j + 1 < length u"
  proof -
    have "v ! j = set_slice_1_m1 u ?rhs ! j"
      using j by (simp add: v len nth_list_update)
    also have "\<dots> = ?rhs ! (j - 1)"
      using j by (intro nth_set_slice_1_m1_interior lr) simp_all
    also have "\<dots> = alpha * slice_0_m2 u ! (j - 1) + (1 - 2 * alpha) * slice_1_m1 u ! (j - 1)
                      + alpha * slice_2 u ! (j - 1)"
      using j by (subst nth_map3) (simp_all add: length_slices)
    also have "\<dots> = alpha * u ! (j - 1) + (1 - 2 * alpha) * u ! j + alpha * u ! (j + 1)"
      using j nth_slices [of "j - 1" u] by simp
    finally show ?thesis .
  qed
qed

text \<open>
  C1.  On a field of at least three points one FTCS step raises nothing and returns a
  field of the same length in which every interior point \<open>j\<close> (from \<open>1\<close> to \<open>N - 2\<close>)
  is \<open>alpha * u[j-1] + (1 - 2 * alpha) * u[j] + alpha * u[j+1]\<close>, taken from the field
  before the step, and the first and last points are the two Dirichlet constants.
  The coefficient is arbitrary, so in particular it may be \<open>D * dt / dx\<^sup>2\<close>.
\<close>

theorem ftcs_step_stencil:
  assumes "3 \<le> length u"
  shows "\<exists>v. ftcs_step alpha uu_left_dirich uu_right_dirich u = Inr v \<and>
           length v = length u \<and>
           (\<forall>j. 1 \<le> j \<and> j \<le> length u - 2 \<longrightarrow>
                v ! j = alpha * u ! (j - 1) + (1 - 2 * alpha) * u ! j + alpha * u ! (j + 1)) \<and>
           v ! 0 = uu_left_dirich \<and> v ! (length u - 1) = uu_right_dirich"
proof -
  from assms have ne: "u \<noteq> []" by auto
  obtain v where v: "ftcs_step alpha uu_left_dirich uu_right_dirich u = Inr v"
    using ftcs_step_Inr [OF ne] by blast
  have "length v = length u"
    by (rule ftcs_step_result(1) [OF ne v])
  moreover have "v ! 0 = uu_left_dirich"
    using assms by (intro ftcs_step_result(2) [OF ne v]) simp
  moreover have "v ! (length u - 1) = uu_right_dirich"
    by (rule ftcs_step_result(3) [OF ne v])
  moreover have "v ! j = alpha * u ! (j - 1) + (1 - 2 * alpha) * u ! j + alpha * u ! (j + 1)"
    if "1 \<le> j \<and> j \<le> length u - 2" for j
    using that assms by (intro ftcs_step_result(4) [OF ne v]) auto
  ultimately show ?thesis using v by blast
qed

theorem ftcs_step_stencil_witness:
  "3 \<le> length [1, 2, 4 :: real] \<and> ftcs_step (1 / 4) 7 9 [1, 2, 4] = Inr [7, 9 / 4, 9]"
proof -
  have h: "3 \<le> length [1, 2, 4 :: real]" by simp
  from ftcs_step_stencil [OF h, of "1 / 4" 7 9]
  obtain v where v: "ftcs_step (1 / 4) 7 9 [1, 2, 4] = Inr v"
    and len: "length v = 3"
    and int: "\<forall>j. 1 \<le> j \<and> j \<le> length [1, 2, 4 :: real] - 2 \<longrightarrow>
                v ! j = 1 / 4 * [1, 2, 4] ! (j - 1) + (1 - 2 * (1 / 4)) * [1, 2, 4] ! j
                        + 1 / 4 * [1, 2, 4] ! (j + 1)"
    and b: "v ! 0 = 7" "v ! (length [1, 2, 4 :: real] - 1) = 9"
    by auto
  from int have "v ! Suc 0 = 9 / 4" by simp
  moreover from b have "v ! 0 = 7" "v ! Suc (Suc 0) = 9" by simp_all
  ultimately have "v ! i = [7, 9 / 4, 9] ! i" if "i < 3" for i
    using that by (auto simp add: less_Suc_eq numeral_3_eq_3)
  with len have "v = [7, 9 / 4, 9]"
    by (intro nth_equalityI) simp_all
  with v h show ?thesis by simp
qed

lemma ftcs_step_from_copy:
  assumes "u \<noteq> []"
  shows "ftcs_step alpha l r u = Inr (ftcs_from_copy alpha l r u)"
proof -
  obtain v where v: "ftcs_step alpha l r u = Inr v"
    using ftcs_step_Inr [OF assms] by blast
  note res = ftcs_step_result [OF assms v]
  have "v = ftcs_from_copy alpha l r u"
  proof (rule nth_equalityI)
    show "length v = length (ftcs_from_copy alpha l r u)"
      by (simp add: res(1) ftcs_from_copy_def)
  next
    fix j assume "j < length v"
    then have j: "j < length u" by (simp add: res(1))
    consider "j = length u - 1" | "j \<noteq> length u - 1" "j = 0" | "j \<noteq> length u - 1" "j \<noteq> 0"
      by blast
    then show "v ! j = ftcs_from_copy alpha l r u ! j"
    proof cases
      case 1
      with j res(3) show ?thesis by (simp add: ftcs_from_copy_def)
    next
      case 2
      with j have "2 \<le> length u" by auto
      with 2 j res(2) show ?thesis by (simp add: ftcs_from_copy_def)
    next
      case 3
      with j have "1 \<le> j" "j + 1 < length u" by auto
      from res(4) [OF this] 3 j show ?thesis by (simp add: ftcs_from_copy_def)
    qed
  qed
  with v show ?thesis by simp
qed

lemma ftcs_loop_inv:
  assumes "u \<noteq> []"
  shows "\<exists>v. ftcs_loop alpha l r n u = Inr v \<and> length v = length u \<and>
           (0 < n \<and> 2 \<le> length u \<longrightarrow> v ! 0 = l \<and> v ! (length u - 1) = r)"
  using assms
proof (induction n arbitrary: u)
  case 0
  then show ?case by simp
next
  case (Suc n)
  obtain w where w: "ftcs_step alpha l r u = Inr w"
    using ftcs_step_Inr [OF Suc.prems] by blast
  note res = ftcs_step_result [OF Suc.prems w]
  from res(1) Suc.prems have wne: "w \<noteq> []" by auto
  from Suc.IH [OF wne] obtain v where v: "ftcs_loop alpha l r n w = Inr v"
    and lv: "length v = length w"
    and bv: "0 < n \<and> 2 \<le> length w \<longrightarrow> v ! 0 = l \<and> v ! (length w - 1) = r"
    by blast
  have run: "ftcs_loop alpha l r (Suc n) u = Inr v"
    using w v by simp
  have "v ! 0 = l \<and> v ! (length u - 1) = r" if "2 \<le> length u"
  proof (cases n)
    case 0
    with v have "v = w" by simp
    with res(2) [OF that] res(3) show ?thesis by simp
  next
    case (Suc m)
    with bv that res(1) show ?thesis by simp
  qed
  with run lv res(1) show ?case by simp
qed

section \<open>The derivative estimators\<close>

lemma length_fold_update:
  "length (fold (\<lambda>i a. a[i := f i]) is a) = length a"
  by (induction "is" arbitrary: a) simp_all

lemma nth_fold_update:
  "hi \<le> length a \<Longrightarrow>
   fold (\<lambda>i a. a[i := f i]) [lo..<hi] a ! j = (if lo \<le> j \<and> j < hi then f j else a ! j)"
proof (induction hi)
  case 0
  then show ?case by simp
next
  case (Suc hi)
  show ?case
  proof (cases "lo \<le> hi")
    case True
    with Suc show ?thesis
      by (auto simp add: length_fold_update nth_list_update)
  next
    case False
    then show ?thesis by auto
  qed
qed

lemma dudx_entries:
  assumes "2 \<le> length u"
  shows "\<exists>fd bd cd.
           fd_dudx dx u = Inr fd \<and> bd_dudx dx u = Inr bd \<and> cd_dudx dx u = Inr cd \<and>
           length fd = length u \<and> length bd = length u \<and> length cd = length u \<and>
           (\<forall>i. i + 1 < length u \<longrightarrow> fd ! i = (u ! (i + 1) - u ! i) / dx) \<and>
           fd ! (length u - 1) = (u ! (length u - 1) - u ! (length u - 2)) / dx \<and>
           (\<forall>i. 1 \<le> i \<and> i < length u \<longrightarrow> bd ! i = (u ! i - u ! (i - 1)) / dx) \<and>
           bd ! 0 = (u ! 1 - u ! 0) / dx \<and>
           (\<forall>i. 1 \<le> i \<and> i + 1 < length u \<longrightarrow>
                cd ! i = (u ! (i + 1) - u ! (i - 1)) / (2 * dx)) \<and>
           cd ! 0 = (u ! 1 - u ! 0) / dx \<and>
           cd ! (length u - 1) = (u ! (length u - 1) - u ! (length u - 2)) / dx"
proof -
  let ?N = "length u"
  let ?fd = "(fold (\<lambda>ii fd. fd[ii := (u ! (ii + 1) - u ! ii) / dx]) [0..<?N - 1] (replicate ?N 0))
               [?N - 1 := (u ! (?N - 1) - u ! (?N - 2)) / dx]"
  let ?bd = "(fold (\<lambda>ii bd. bd[ii := (u ! ii - u ! (ii - 1)) / dx]) [1..<?N] (replicate ?N 0))
               [0 := (u ! 1 - u ! 0) / dx]"
  let ?cd = "((fold (\<lambda>ii cd. cd[ii := (u ! (ii + 1) - u ! (ii - 1)) / (2 * dx)])
                 [1..<?N - 1] (replicate ?N 0))
               [?N - 1 := (u ! (?N - 1) - u ! (?N - 2)) / dx])[0 := (u ! 1 - u ! 0) / dx]"
  from assms have not_short: "\<not> ?N < 2" by simp
  from assms have pos: "0 < ?N" by arith
  have fd: "fd_dudx dx u = Inr ?fd"
    using not_short by (simp add: fd_dudx_def Let_def)
  have bd: "bd_dudx dx u = Inr ?bd"
    using not_short by (simp add: bd_dudx_def Let_def)
  have cd: "cd_dudx dx u = Inr ?cd"
    using not_short by (simp add: cd_dudx_def Let_def)
  have lens: "length ?fd = ?N" "length ?bd = ?N" "length ?cd = ?N"
    by (simp_all add: length_fold_update)
  have fd_int: "?fd ! i = (u ! (i + 1) - u ! i) / dx" if "i + 1 < ?N" for i
    using that by (auto simp add: nth_list_update length_fold_update nth_fold_update)
  have fd_last: "?fd ! (?N - 1) = (u ! (?N - 1) - u ! (?N - 2)) / dx"
    using assms by (simp add: length_fold_update)
  have bd_int: "?bd ! i = (u ! i - u ! (i - 1)) / dx" if "1 \<le> i \<and> i < ?N" for i
    using that by (auto simp add: nth_list_update length_fold_update nth_fold_update)
  have bd_first: "?bd ! 0 = (u ! 1 - u ! 0) / dx"
    using pos by (simp add: length_fold_update)
  have cd_int: "?cd ! i = (u ! (i + 1) - u ! (i - 1)) / (2 * dx)" if "1 \<le> i \<and> i + 1 < ?N" for i
    using that by (auto simp add: nth_list_update length_fold_update nth_fold_update)
  have cd_first: "?cd ! 0 = (u ! 1 - u ! 0) / dx"
    using pos by (simp add: length_fold_update)
  have cd_last: "?cd ! (?N - 1) = (u ! (?N - 1) - u ! (?N - 2)) / dx"
    using assms by (simp add: nth_list_update length_fold_update)
  show ?thesis
    unfolding fd bd cd
    using lens fd_int fd_last bd_int bd_first cd_int cd_first cd_last by blast
qed

text \<open>
  C5.  On at least two samples the estimator raises nothing and returns three arrays of
  the length of the input.  The forward estimate is \<open>(u[i+1] - u[i]) / dx\<close> wherever
  there is a right neighbour and the backward formula at the last point; the backward
  estimate is \<open>(u[i] - u[i-1]) / dx\<close> wherever there is a left neighbour and the
  forward formula at the first point; the centred estimate is
  \<open>(u[i+1] - u[i-1]) / (2 * dx)\<close> at every interior point, the forward formula at the
  first point and the backward formula at the last.
\<close>

theorem dudx_estimates:
  assumes "2 \<le> length u"
  shows "\<exists>fd bd cd.
           fd_dudx dx u = Inr fd \<and> bd_dudx dx u = Inr bd \<and> cd_dudx dx u = Inr cd \<and>
           length fd = length u \<and> length bd = length u \<and> length cd = length u \<and>
           (\<forall>i. i + 1 < length u \<longrightarrow> fd ! i = (u ! (i + 1) - u ! i) / dx) \<and>
           fd ! (length u - 1) = (u ! (length u - 1) - u ! (length u - 2)) / dx \<and>
           (\<forall>i. 1 \<le> i \<and> i < length u \<longrightarrow> bd ! i = (u ! i - u ! (i - 1)) / dx) \<and>
           bd ! 0 = (u ! 1 - u ! 0) / dx \<and>
           (\<forall>i. 1 \<le> i \<and> i + 1 < length u \<longrightarrow>
                cd ! i = (u ! (i + 1) - u ! (i - 1)) / (2 * dx)) \<and>
           cd ! 0 = (u ! 1 - u ! 0) / dx \<and>
           cd ! (length u - 1) = (u ! (length u - 1) - u ! (length u - 2)) / dx"
  using assms by (rule dudx_entries)

theorem dudx_estimates_witness:
  "2 \<le> length [0, 1, 4 :: real] \<and>
   fd_dudx 2 [0, 1, 4] = Inr [1 / 2, 3 / 2, 3 / 2] \<and>
   bd_dudx 2 [0, 1, 4] = Inr [1 / 2, 1 / 2, 3 / 2] \<and>
   cd_dudx 2 [0, 1, 4] = Inr [1 / 2, 1, 3 / 2]"
  using dudx_estimates [of "[0, 1, 4]" 2]
  by (simp add: fd_dudx_def bd_dudx_def cd_dudx_def Let_def upt_rec)

section \<open>The wave step\<close>

lemma nth_map2:
  "i < n \<Longrightarrow> length xs = n \<Longrightarrow> length ys = n \<Longrightarrow> map2 f xs ys ! i = f (xs ! i) (ys ! i)"
  by simp

lemma length_wave_terms:
  "length (sp_term1 u) = length u - 2"
  "length (sp_term2 b u) = min (length b - 2) (length u - 2)"
  "length (fac1 g dt dx b) = length b - 2"
  by (simp_all add: sp_term1_def sp_term2_def fac1_def length_map3 length_slices)

lemma nth_wave_terms:
  assumes "i < length u - 2" and "length b = length u"
  shows "sp_term1 u ! i = u ! (i + 2) - 2 * u ! (i + 1) + u ! i"
    and "sp_term2 b u ! i = (b ! (i + 2) - b ! i) * (u ! (i + 2) - u ! i)"
    and "fac1 g dt dx b ! i = (sqrt (g * b ! (i + 1)) * dt / dx) ^ 2"
  using assms
  by (simp_all add: sp_term1_def sp_term2_def fac1_def nth_map3 length_slices nth_slices
      slice_1_m1_def)

lemma length_wave_rhs:
  assumes "length b = length u" and "0 < tt \<longrightarrow> length u2 = length u"
  shows "length (wave_rhs g dt dx b tt u2 u) = length u - 2"
  using assms by (auto simp add: wave_rhs_def length_map3 length_slices length_wave_terms)

lemma nth_wave_rhs:
  assumes "length b = length u" and "0 < tt \<longrightarrow> length u2 = length u" and "i < length u - 2"
  shows "wave_rhs g dt dx b tt u2 u ! i = wave_interior g dt dx b tt u2 u (i + 1)"
proof (cases "tt = 0")
  case True
  with assms show ?thesis
    by (simp add: wave_rhs_def wave_interior_def Let_def nth_map3 length_slices
      length_wave_terms nth_wave_terms nth_slices fac2_def)
next
  case False
  with assms have l2: "length u2 = length u" by simp
  let ?A = "map3 (\<lambda>a b c. a + b + c) (map (\<lambda>u. - 1 * u) (slice_1_m1 u2))
             (map (\<lambda>u. 2 * u) (slice_1_m1 u))
             (map2 (*) (fac1 g dt dx b) (sp_term1 u))"
  let ?B = "map (\<lambda>t. fac2 g dt dx * t) (sp_term2 b u)"
  have lA: "length ?A = length u - 2"
    using assms l2 by (simp add: length_map3 length_slices length_wave_terms)
  have lB: "length ?B = length u - 2"
    using assms by (simp add: length_wave_terms)
  have A: "?A ! i = - 1 * u2 ! (i + 1) + 2 * u ! (i + 1)
      + (sqrt (g * b ! (i + 1)) * dt / dx) ^ 2 * (u ! (i + 2) - 2 * u ! (i + 1) + u ! i)"
    using assms l2
    by (subst nth_map3)
       (simp_all add: length_slices length_wave_terms nth_wave_terms nth_slices)
  have B: "?B ! i = fac2 g dt dx * ((b ! (i + 2) - b ! i) * (u ! (i + 2) - u ! i))"
    using assms by (simp add: length_wave_terms nth_wave_terms)
  have "wave_rhs g dt dx b tt u2 u = map2 (+) ?A ?B"
    using False by (simp only: wave_rhs_def if_False)
  moreover have "map2 (+) ?A ?B ! i = ?A ! i + ?B ! i"
    using assms(3) by (rule nth_map2) (simp_all only: lA lB)
  ultimately have "wave_rhs g dt dx b tt u2 u ! i = ?A ! i + ?B ! i"
    by (simp only:)
  then show ?thesis
    using False unfolding A B by (simp add: wave_interior_def Let_def fac2_def)
qed

lemma wave_boundary:
  fixes xs :: "real list"
  assumes "3 \<le> length xs"
  shows "length ((xs[0 := xs ! 2])[length xs - 1 := (xs[0 := xs ! 2]) ! (length xs - 3)]) = length xs"
    and "((xs[0 := xs ! 2])[length xs - 1 := (xs[0 := xs ! 2]) ! (length xs - 3)]) ! 0
         = ((xs[0 := xs ! 2])[length xs - 1 := (xs[0 := xs ! 2]) ! (length xs - 3)]) ! 2"
    and "((xs[0 := xs ! 2])[length xs - 1 := (xs[0 := xs ! 2]) ! (length xs - 3)]) ! (length xs - 1)
         = ((xs[0 := xs ! 2])[length xs - 1 := (xs[0 := xs ! 2]) ! (length xs - 3)]) ! (length xs - 3)"
    and "1 \<le> j \<Longrightarrow> j + 1 < length xs \<Longrightarrow>
         ((xs[0 := xs ! 2])[length xs - 1 := (xs[0 := xs ! 2]) ! (length xs - 3)]) ! j = xs ! j"
proof -
  from assms have ne: "xs \<noteq> []" by auto
  let ?c2 = "xs[0 := xs ! 2]"
  let ?c3 = "?c2[length xs - 1 := ?c2 ! (length xs - 3)]"
  show "length ?c3 = length xs" by simp
  have c20: "?c2 ! 0 = xs ! 2" using ne by simp
  have c22: "?c2 ! 2 = xs ! 2" by simp
  show "?c3 ! 0 = ?c3 ! 2"
    using assms ne c20 by (auto simp add: nth_list_update numeral_3_eq_3)
  show "?c3 ! (length xs - 1) = ?c3 ! (length xs - 3)"
    using assms ne by (auto simp add: nth_list_update)
  show "?c3 ! j = xs ! j" if "1 \<le> j" "j + 1 < length xs"
    using that by (auto simp add: nth_list_update)
qed

lemma wave_step_Inr:
  assumes "3 \<le> length (uu_cur s)" and "length b = length (uu_cur s)"
    and "0 < tt \<longrightarrow> length (uu_old s) = length (uu_cur s)"
  shows "\<exists>c. wave_step g dt dx b tt s = Inr \<lparr>uu_old = uu_cur s, uu_cur = c\<rparr> \<and>
           length c = length (uu_cur s) \<and>
           (\<forall>j. 1 \<le> j \<and> j + 1 < length (uu_cur s) \<longrightarrow>
                c ! j = wave_interior g dt dx b tt (uu_old s) (uu_cur s) j) \<and>
           c ! 0 = c ! 2 \<and> c ! (length c - 1) = c ! (length c - 3)"
proof -
  let ?u = "uu_cur s"
  let ?N = "length ?u"
  let ?rhs = "wave_rhs g dt dx b tt (uu_old s) ?u"
  define c1 where "c1 = set_slice_1_m1 ?u ?rhs"
  define c3 where "c3 = (c1[0 := c1 ! 2])[length c1 - 1 := (c1[0 := c1 ! 2]) ! (length c1 - 3)]"
  have lr: "length ?rhs = ?N - 2"
    using assms by (intro length_wave_rhs) simp_all
  have l1: "length c1 = ?N"
    unfolding c1_def by (rule length_set_slice_1_m1) (rule lr)
  with assms(1) have l13: "3 \<le> length c1" by simp
  have step: "wave_step g dt dx b tt s = Inr \<lparr>uu_old = ?u, uu_cur = c3\<rparr>"
    using assms l1 by (auto simp add: wave_step_def Let_def c1_def c3_def)
  have l3: "length c3 = ?N"
    using wave_boundary(1) [OF l13] l1 by (simp add: c3_def)
  have int1: "c1 ! j = wave_interior g dt dx b tt (uu_old s) ?u j"
    if j: "1 \<le> j \<and> j + 1 < ?N" for j
  proof -
    have "c1 ! j = ?rhs ! (j - 1)"
      unfolding c1_def using j by (intro nth_set_slice_1_m1_interior lr) simp_all
    also have "\<dots> = wave_interior g dt dx b tt (uu_old s) ?u (j - 1 + 1)"
      using assms j by (intro nth_wave_rhs) auto
    finally show ?thesis using j by simp
  qed
  have int3: "c3 ! j = c1 ! j" if j: "1 \<le> j \<and> j + 1 < ?N" for j
    using wave_boundary(4) [OF l13, of j] j l1 by (simp add: c3_def)
  have b0: "c3 ! 0 = c3 ! 2"
    using wave_boundary(2) [OF l13] by (simp add: c3_def)
  have bl: "c3 ! (length c3 - 1) = c3 ! (length c3 - 3)"
    using wave_boundary(3) [OF l13] l1 l3 by (simp add: c3_def)
  show ?thesis
    using step l3 int1 int3 b0 bl by (intro exI [of _ c3]) simp
qed

lemma wave_loop_inv:
  assumes "3 \<le> length (uu_cur s0)" and "length b = length (uu_cur s0)"
  shows "\<exists>s. wave_loop g dt dx b n s0 = Inr s \<and> length (uu_cur s) = length (uu_cur s0) \<and>
           (0 < n \<longrightarrow> length (uu_old s) = length (uu_cur s0) \<and>
              uu_cur s ! 0 = uu_cur s ! 2 \<and>
              uu_cur s ! (length (uu_cur s0) - 1) = uu_cur s ! (length (uu_cur s0) - 3))"
proof (induction n)
  case 0
  then show ?case by simp
next
  case (Suc n)
  then obtain s where s: "wave_loop g dt dx b n s0 = Inr s"
    and ls: "length (uu_cur s) = length (uu_cur s0)"
    and lo: "0 < n \<longrightarrow> length (uu_old s) = length (uu_cur s0)"
    by blast
  have "\<exists>c. wave_step g dt dx b n s = Inr \<lparr>uu_old = uu_cur s, uu_cur = c\<rparr> \<and>
           length c = length (uu_cur s) \<and>
           (\<forall>j. 1 \<le> j \<and> j + 1 < length (uu_cur s) \<longrightarrow>
                c ! j = wave_interior g dt dx b n (uu_old s) (uu_cur s) j) \<and>
           c ! 0 = c ! 2 \<and> c ! (length c - 1) = c ! (length c - 3)"
    using assms ls lo by (intro wave_step_Inr) simp_all
  then obtain c where c: "wave_step g dt dx b n s = Inr \<lparr>uu_old = uu_cur s, uu_cur = c\<rparr>"
    and lc: "length c = length (uu_cur s)"
    and bc: "c ! 0 = c ! 2" "c ! (length c - 1) = c ! (length c - 3)"
    by blast
  have "wave_loop g dt dx b (Suc n) s0 = Inr \<lparr>uu_old = uu_cur s, uu_cur = c\<rparr>"
    using s c by simp
  with lc ls bc show ?case by simp
qed

section \<open>The implicit step\<close>

lemma dot_sum:
  assumes "length xs = n" and "length ys = n"
  shows "dot xs ys = (\<Sum>k<n. xs ! k * ys ! k)"
proof -
  have "dot xs ys = (\<Sum>k = 0..<length (map2 (*) xs ys). map2 (*) xs ys ! k)"
    unfolding dot_def by (rule sum_list_sum_nth)
  also have "\<dots> = (\<Sum>k = 0..<n. xs ! k * ys ! k)"
    using assms by (intro sum.cong) simp_all
  finally show ?thesis by (simp add: atLeast0LessThan)
qed

lemma is_square_row: "is_square n a \<Longrightarrow> i < n \<Longrightarrow> length (a ! i) = n"
  by (auto simp add: is_square_def list_all_length)

lemma is_square_length: "is_square n a \<Longrightarrow> length a = n"
  by (simp add: is_square_def)

lemma nth_mat_vec:
  assumes "is_square n a" and "length v = n" and "i < n"
  shows "mat_vec a v ! i = (\<Sum>k<n. a ! i ! k * v ! k)"
  using assms by (simp add: mat_vec_def is_square_length is_square_row dot_sum)

lemma length_mat_vec: "length (mat_vec a v) = length a"
  by (simp add: mat_vec_def)

lemma nth_mat_mul:
  assumes "is_square n a" and "is_square n b" and "i < n" and "j < n"
  shows "mat_mul n a b ! i ! j = (\<Sum>k<n. a ! i ! k * b ! k ! j)"
proof -
  have "mat_mul n a b ! i ! j = dot (a ! i) (col b j)"
    using assms by (simp add: mat_mul_def)
  also have "\<dots> = (\<Sum>k<n. a ! i ! k * col b j ! k)"
    using assms by (intro dot_sum) (simp_all add: is_square_row col_def is_square_length)
  also have "\<dots> = (\<Sum>k<n. a ! i ! k * b ! k ! j)"
    using assms by (intro sum.cong) (simp_all add: col_def is_square_length)
  finally show ?thesis .
qed

lemma is_square_mat_mul: "is_square n (mat_mul n a b)"
  by (simp add: is_square_def mat_mul_def list_all_length)

lemma is_square_identity: "is_square n (identity n)"
  by (simp add: is_square_def identity_def list_all_length)

lemma mat_vec_mat_mul:
  assumes "is_square n a" and "is_square n b" and "length v = n"
  shows "mat_vec (mat_mul n a b) v = mat_vec a (mat_vec b v)"
proof (rule nth_equalityI)
  show "length (mat_vec (mat_mul n a b) v) = length (mat_vec a (mat_vec b v))"
    using assms by (simp add: length_mat_vec is_square_length mat_mul_def)
next
  fix i assume "i < length (mat_vec (mat_mul n a b) v)"
  then have i: "i < n" by (simp add: length_mat_vec mat_mul_def)
  have lb: "length (mat_vec b v) = n"
    using assms by (simp add: length_mat_vec is_square_length)
  have "mat_vec (mat_mul n a b) v ! i = (\<Sum>j<n. mat_mul n a b ! i ! j * v ! j)"
    using assms i by (intro nth_mat_vec is_square_mat_mul)
  also have "\<dots> = (\<Sum>j<n. (\<Sum>k<n. a ! i ! k * b ! k ! j) * v ! j)"
    using assms i by (intro sum.cong) (simp_all add: nth_mat_mul)
  also have "\<dots> = (\<Sum>j<n. \<Sum>k<n. a ! i ! k * (b ! k ! j * v ! j))"
    by (simp add: sum_distrib_right mult.assoc)
  also have "\<dots> = (\<Sum>k<n. \<Sum>j<n. a ! i ! k * (b ! k ! j * v ! j))"
    by (rule sum.swap)
  also have "\<dots> = (\<Sum>k<n. a ! i ! k * (\<Sum>j<n. b ! k ! j * v ! j))"
    by (simp add: sum_distrib_left)
  also have "\<dots> = (\<Sum>k<n. a ! i ! k * mat_vec b v ! k)"
    using assms by (intro sum.cong) (simp_all add: nth_mat_vec)
  also have "\<dots> = mat_vec a (mat_vec b v) ! i"
    using assms i lb by (simp add: nth_mat_vec)
  finally show "mat_vec (mat_mul n a b) v ! i = mat_vec a (mat_vec b v) ! i" .
qed

lemma mat_vec_identity:
  assumes "length v = n"
  shows "mat_vec (identity n) v = v"
proof (rule nth_equalityI)
  show "length (mat_vec (identity n) v) = length v"
    using assms by (simp add: length_mat_vec identity_def)
next
  fix i assume "i < length (mat_vec (identity n) v)"
  then have i: "i < n" by (simp add: length_mat_vec identity_def)
  have "mat_vec (identity n) v ! i = (\<Sum>k<n. identity n ! i ! k * v ! k)"
    using assms i by (intro nth_mat_vec is_square_identity)
  also have "\<dots> = (\<Sum>k<n. if k = i then v ! k else 0)"
    using i by (intro sum.cong) (auto simp add: identity_def)
  also have "\<dots> = v ! i"
    using i by simp
  finally show "mat_vec (identity n) v ! i = v ! i" .
qed

lemma inverse_solves:
  assumes "is_square n h" and "is_inverse n h hi" and "length v = n"
  shows "mat_vec h (mat_vec hi v) = v"
    and "length x = n \<Longrightarrow> mat_vec h x = v \<Longrightarrow> x = mat_vec hi v"
proof -
  from assms have sq: "is_square n hi" and r: "mat_mul n h hi = identity n"
    and l: "mat_mul n hi h = identity n"
    by (simp_all add: is_inverse_def)
  show "mat_vec h (mat_vec hi v) = v"
    using mat_vec_mat_mul [OF assms(1) sq assms(3)] r mat_vec_identity [OF assms(3)] by simp
  show "x = mat_vec hi v" if "length x = n" "mat_vec h x = v"
    using mat_vec_mat_mul [OF sq assms(1) that(1)] l mat_vec_identity [OF that(1)] that(2)
    by simp
qed

lemma hmat_Inr:
  assumes "2 \<le> xnum"
  shows "hmat alpha xnum =
     Inr (diags3 ((replicate (xnum - 1) (- alpha))[xnum - 2 := 0])
                 (((replicate xnum (1 + 2 * alpha))[0 := 1])[xnum - 1 := 1])
                 ((replicate (xnum - 1) (- alpha))[0 := 0]))"
  using assms by (simp add: hmat_def Let_def)

lemma hmat_entries:
  assumes "2 \<le> xnum" and "hmat alpha xnum = Inr h"
  shows "is_square xnum h"
    and "i < xnum \<Longrightarrow> j < xnum \<Longrightarrow> h ! i ! j = implicit_coeff alpha xnum i j"
proof -
  let ?low = "(replicate (xnum - 1) (- alpha))[xnum - 2 := 0]"
  let ?main = "((replicate xnum (1 + 2 * alpha))[0 := 1])[xnum - 1 := 1]"
  let ?up = "(replicate (xnum - 1) (- alpha))[0 := 0]"
  have h: "h = diags3 ?low ?main ?up"
    using assms hmat_Inr [OF assms(1), of alpha] by simp
  show "is_square xnum h"
    by (simp add: h diags3_def Let_def is_square_def list_all_length)
  show "h ! i ! j = implicit_coeff alpha xnum i j" if ij: "i < xnum" "j < xnum"
  proof -
    have "h ! i ! j = (if j = i then ?main ! i else if j = i + 1 then ?up ! i
                       else if i = j + 1 then ?low ! j else 0)"
      using ij by (simp add: h diags3_def Let_def)
    also have "\<dots> = implicit_coeff alpha xnum i j"
    proof -
      have m: "?main ! i = (if i = 0 \<or> i = xnum - 1 then 1 else 1 + 2 * alpha)"
        using ij by (simp add: nth_list_update)
      have u: "?up ! i = (if i = 0 then 0 else - alpha)" if "j = i + 1"
        using ij that by (simp add: nth_list_update)
      have l: "?low ! j = (if i = xnum - 1 then 0 else - alpha)" if "i = j + 1"
        using ij that by (auto simp add: nth_list_update)
      show ?thesis
      proof (cases "j = i")
        case True
        then show ?thesis by (simp only: m implicit_coeff_def) simp
      next
        case ne: False
        show ?thesis
        proof (cases "j = i + 1")
          case True
          with ne ij show ?thesis
            by (simp only: u [OF True] implicit_coeff_def) auto
        next
          case nu: False
          show ?thesis
          proof (cases "i = j + 1")
            case True
            with ne nu ij show ?thesis
              by (simp only: l [OF True] implicit_coeff_def) auto
          next
            case False
            with ne nu show ?thesis
              by (simp add: implicit_coeff_def)
          qed
        qed
      qed
    qed
    finally show ?thesis .
  qed
qed

lemma hmat_boundary_rows:
  assumes "2 \<le> xnum" and "hmat alpha xnum = Inr h" and "length x = xnum"
  shows "mat_vec h x ! 0 = x ! 0" and "mat_vec h x ! (xnum - 1) = x ! (xnum - 1)"
proof -
  note sq = hmat_entries(1) [OF assms(1,2)]
  have row: "mat_vec h x ! i = x ! i" if i: "i = 0 \<or> i = xnum - 1" for i
  proof -
    from i assms(1) have il: "i < xnum" by auto
    have "mat_vec h x ! i = (\<Sum>k<xnum. h ! i ! k * x ! k)"
      using sq assms(3) il by (rule nth_mat_vec)
    also have "\<dots> = (\<Sum>k<xnum. if k = i then x ! k else 0)"
      using il i hmat_entries(2) [OF assms(1,2)]
      by (intro sum.cong) (auto simp add: implicit_coeff_def)
    also have "\<dots> = x ! i"
      using il by simp
    finally show ?thesis .
  qed
  show "mat_vec h x ! 0 = x ! 0" by (rule row) simp
  show "mat_vec h x ! (xnum - 1) = x ! (xnum - 1)" by (rule row) simp
qed

lemma implicit_step_Inr:
  assumes "is_square xnum hi" and "length u = xnum"
  shows "implicit_step xnum hi u = Inr (mat_vec hi u)"
  using assms by (simp add: implicit_step_def Let_def is_square_def)

lemma implicit_step_boundary:
  assumes "2 \<le> xnum" and "hmat alpha xnum = Inr h" and "is_inverse xnum h hi"
    and "length u = xnum"
  shows "implicit_step xnum hi u = Inr (mat_vec hi u)"
    and "length (mat_vec hi u) = xnum"
    and "mat_vec h (mat_vec hi u) = u"
    and "mat_vec hi u ! 0 = u ! 0"
    and "mat_vec hi u ! (xnum - 1) = u ! (xnum - 1)"
proof -
  note sq = hmat_entries(1) [OF assms(1,2)]
  from assms(3) have sqi: "is_square xnum hi" by (simp add: is_inverse_def)
  show "implicit_step xnum hi u = Inr (mat_vec hi u)"
    using sqi assms(4) by (rule implicit_step_Inr)
  show len: "length (mat_vec hi u) = xnum"
    using sqi by (simp add: length_mat_vec is_square_length)
  show solve: "mat_vec h (mat_vec hi u) = u"
    using sq assms(3,4) by (rule inverse_solves(1))
  show "mat_vec hi u ! 0 = u ! 0"
    using hmat_boundary_rows(1) [OF assms(1,2) len] solve by simp
  show "mat_vec hi u ! (xnum - 1) = u ! (xnum - 1)"
    using hmat_boundary_rows(2) [OF assms(1,2) len] solve by simp
qed

lemma implicit_loop_inv:
  assumes "2 \<le> xnum" and "hmat alpha xnum = Inr h" and "is_inverse xnum h hi"
    and "length u = xnum"
  shows "\<exists>v. implicit_loop xnum hi n u = Inr v \<and> length v = xnum \<and>
           v ! 0 = u ! 0 \<and> v ! (xnum - 1) = u ! (xnum - 1)"
  using assms(4)
proof (induction n arbitrary: u)
  case 0
  then show ?case by simp
next
  case (Suc n)
  note st = implicit_step_boundary [OF assms(1-3) Suc.prems]
  from Suc.IH [OF st(2)] obtain v where "implicit_loop xnum hi n (mat_vec hi u) = Inr v"
    and "length v = xnum" and "v ! 0 = mat_vec hi u ! 0"
    and "v ! (xnum - 1) = mat_vec hi u ! (xnum - 1)"
    by blast
  with st show ?case by simp
qed

lemma arange_0_nth0: "arange 0 stop step \<noteq> [] \<Longrightarrow> arange 0 stop step ! 0 = 0"
  by (auto simp add: arange_def nth_map_upt)

lemma length_uu_0: "length (uu_0 uu_base uu_spill spill_scale xgrid) = length xgrid"
  by (simp add: uu_0_def)

lemma nth_uu_0:
  "i < length xgrid \<Longrightarrow>
   uu_0 uu_base uu_spill spill_scale xgrid ! i
     = uu_base + uu_spill * exp (- (1 / 2) * (xgrid ! i) ^ 2 / spill_scale ^ 2)"
  by (simp add: uu_0_def)

section \<open>Small runs\<close>

text \<open>The three time loops on three grid points, evaluated.\<close>

lemma hmat_3: "hmat 1 3 = Inr [[1, 0, 0], [- 1, 3, - 1], [0, 0, 1]]"
  by (simp add: hmat_def diags3_def Let_def upt_rec numeral_3_eq_3)

lemma is_inverse_3:
  "is_inverse 3 [[1, 0, 0], [- 1, 3, - 1], [0, 0, 1]] [[1, 0, 0], [1 / 3, 1 / 3, 1 / 3], [0, 0, 1]]"
  by (simp add: is_inverse_def is_square_def mat_mul_def identity_def dot_def col_def upt_rec
      numeral_3_eq_3)

lemma wave_2: "wave_loop 4 1 1 [1, 1, 3] 2 \<lparr>uu_old = [0, 0, 0], uu_cur = [0, 0, 1]\<rparr> =
     Inr \<lparr>uu_old = [1, 4, 1], uu_cur = [1, - 16, 1]\<rparr>"
  by (simp add: numeral_2_eq_2 wave_step_def wave_rhs_def sp_term1_def sp_term2_def fac1_def
      fac2_def map3_def slice_0_m2_def slice_1_m1_def slice_2_def set_slice_1_m1_def Let_def
      power_divide)

lemma ftcs_2: "ftcs_loop (1 / 4) 7 9 2 [1, 2, 4] = Inr [7, 41 / 8, 9]"
  by (simp add: numeral_2_eq_2 ftcs_step_def map3_def slice_0_m2_def slice_1_m1_def slice_2_def
      set_slice_1_m1_def Let_def)

lemma impl_2: "implicit_loop 3 [[1, 0, 0], [1 / 3, 1 / 3, 1 / 3], [0, 0, 1]] 2 [3, 0, 6] = Inr [3, 4, 6]"
  by (simp add: numeral_2_eq_2 implicit_step_def mat_vec_def dot_def Let_def)

lemma inv_spec_3: "inv_spec inv_3"
  unfolding inv_spec_def
proof (intro allI impI)
  fix a b assume "inv_3 a = Inr b"
  then have a: "a = [[1, 0, 0], [- 1, 3, - 1], [0, 0, 1]]"
    and b: "b = [[1, 0, 0], [1 / 3, 1 / 3, 1 / 3], [0, 0, 1]]"
    by (auto simp add: inv_3_def split: if_splits)
  have "length a = 3" by (simp add: a)
  then show "is_inverse (length a) a b"
    using is_inverse_3 by (simp only: a b)
qed

lemma arange_3: "arange 0 3 1 = [0, 1, 2]"
  by (simp add: arange_def upt_rec numeral_3_eq_3)

lemma ballistic_3:
  "ballistic 0 0 1 (- 3) (- 2) 1 3
     = Inr \<lparr>xxfull = [0, 1, 2], nmr_zzfull = [0, 0, 1], atic_zzfull = [0, 0, 0]\<rparr>"
  by (simp add: ballistic_def ballistic_init_def euler_step_def analytic_ballistic_def Let_def
      numeral_2_eq_2 numeral_3_eq_3)

text \<open>
  The coefficient of the two diffusion notebooks: \<open>bigd = 10\<close>, \<open>deltat_sec = 0.1 * 86400\<close>
  and \<open>deltax = 1000\<close> give \<open>alpha = 0.0864\<close>, between \<open>0\<close> and \<open>1/2\<close>.
\<close>

lemma notebook_alpha:
  "ftcs_alpha 10 (1 / 10 * (3600 * 24)) 1000 = Inr (54 / 625)"
  "(0 :: real) \<le> 54 / 625" "(54 / 625 :: real) \<le> 1 / 2"
  by (simp_all add: ftcs_alpha_def)

section \<open>The ballistic loop\<close>

lemma euler_step_Inr:
  assumes "kk + 1 < length (xxfull s)" and "kk + 1 < length (nmr_zzfull s)"
    and "kk + 1 < length (atic_zzfull s)" and "uu0 \<noteq> 0"
  shows "euler_step uu0 ww0 grv deltat kk s =
     Inr \<lparr>xxfull = (xxfull s)[kk + 1 := uu0 * real (kk + 1) * deltat],
          nmr_zzfull = (nmr_zzfull s)[kk + 1 :=
             max (nmr_zzfull s ! kk + deltat * (ww0 - grv * real (kk + 1) * deltat)) 0],
          atic_zzfull = (atic_zzfull s)[kk + 1 :=
             max (- (grv / 2) * (1 / uu0 ^ 2) * (uu0 * real (kk + 1) * deltat) ^ 2
                   + (ww0 / uu0) * (uu0 * real (kk + 1) * deltat)) 0]\<rparr>"
  using assms by (simp add: euler_step_def analytic_ballistic_def Let_def)

lemma euler_loop_inv:
  assumes "length (xxfull s0) = len" and "length (nmr_zzfull s0) = len"
    and "length (atic_zzfull s0) = len" and "uu0 \<noteq> 0"
  shows "n < len \<Longrightarrow>
     \<exists>s. euler_loop uu0 ww0 grv deltat n s0 = Inr s \<and> euler_inv uu0 ww0 grv deltat len n s0 s"
proof (induction n)
  case 0
  with assms show ?case by (simp add: euler_inv_def)
next
  case (Suc n)
  then obtain s where s: "euler_loop uu0 ww0 grv deltat n s0 = Inr s"
    and inv: "euler_inv uu0 ww0 grv deltat len n s0 s"
    by auto
  from inv have len: "length (xxfull s) = len" "length (nmr_zzfull s) = len"
    "length (atic_zzfull s) = len"
    by (simp_all add: euler_inv_def)
  let ?s' = "\<lparr>xxfull = (xxfull s)[n + 1 := uu0 * real (n + 1) * deltat],
          nmr_zzfull = (nmr_zzfull s)[n + 1 :=
             max (nmr_zzfull s ! n + deltat * (ww0 - grv * real (n + 1) * deltat)) 0],
          atic_zzfull = (atic_zzfull s)[n + 1 :=
             max (- (grv / 2) * (1 / uu0 ^ 2) * (uu0 * real (n + 1) * deltat) ^ 2
                   + (ww0 / uu0) * (uu0 * real (n + 1) * deltat)) 0]\<rparr>"
  have step: "euler_step uu0 ww0 grv deltat n s = Inr ?s'"
    using Suc.prems len assms(4) by (intro euler_step_Inr) simp_all
  define nv where "nv = max (nmr_zzfull s ! n + deltat * (ww0 - grv * real (n + 1) * deltat)) 0"
  define av where "av = max (- (grv / 2) * (1 / uu0 ^ 2) * (uu0 * real (n + 1) * deltat) ^ 2
                   + (ww0 / uu0) * (uu0 * real (n + 1) * deltat)) 0"
  define s' where "s' = \<lparr>xxfull = (xxfull s)[n + 1 := uu0 * real (n + 1) * deltat],
          nmr_zzfull = (nmr_zzfull s)[n + 1 := nv], atic_zzfull = (atic_zzfull s)[n + 1 := av]\<rparr>"
  have s'_eq: "?s' = s'" by (simp add: s'_def nv_def av_def)
  have old: "nmr_zzfull s' ! k = nmr_zzfull s ! k" "atic_zzfull s' ! k = atic_zzfull s ! k"
    if "k \<le> n" for k
    using that by (simp_all add: s'_def)
  have new: "nmr_zzfull s' ! Suc n = nv" "atic_zzfull s' ! Suc n = av"
    using Suc.prems len by (simp_all add: s'_def)
  from inv have inv_k: "nmr_zzfull s ! k
           = max (nmr_zzfull s ! (k - 1) + deltat * (ww0 - grv * real k * deltat)) 0"
     "atic_zzfull s ! k
           = max (- (grv / 2) * (1 / uu0 ^ 2) * (uu0 * real k * deltat) ^ 2
                    + (ww0 / uu0) * (uu0 * real k * deltat)) 0"
    if "1 \<le> k \<and> k \<le> n" for k
    using that unfolding euler_inv_def by blast+
  have "euler_inv uu0 ww0 grv deltat len (Suc n) s0 s'"
    unfolding euler_inv_def
  proof (intro conjI allI impI)
    fix k assume k: "1 \<le> k \<and> k \<le> Suc n"
    show "nmr_zzfull s' ! k
           = max (nmr_zzfull s' ! (k - 1) + deltat * (ww0 - grv * real k * deltat)) 0"
    proof (cases "k = Suc n")
      case True
      have "nmr_zzfull s' ! (Suc n - 1) = nmr_zzfull s ! n" using old(1) [of n] by simp
      with True new(1) show ?thesis by (simp add: nv_def)
    next
      case False
      with k have kn: "1 \<le> k \<and> k \<le> n" and k1: "k - 1 \<le> n" by auto
      from kn have "k \<le> n" by simp
      from old(1) [OF this] old(1) [OF k1] inv_k(1) [OF kn] show ?thesis by simp
    qed
    show "atic_zzfull s' ! k
           = max (- (grv / 2) * (1 / uu0 ^ 2) * (uu0 * real k * deltat) ^ 2
                    + (ww0 / uu0) * (uu0 * real k * deltat)) 0"
    proof (cases "k = Suc n")
      case True
      with new(2) show ?thesis by (simp add: av_def)
    next
      case False
      with k have kn: "1 \<le> k \<and> k \<le> n" by auto
      then have "k \<le> n" by simp
      from old(2) [OF this] inv_k(2) [OF kn] show ?thesis by simp
    qed
  next
    show "nmr_zzfull s' ! 0 = nmr_zzfull s0 ! 0"
      using old(1) [of 0] inv by (simp add: euler_inv_def)
    show "atic_zzfull s' ! 0 = atic_zzfull s0 ! 0"
      using old(2) [of 0] inv by (simp add: euler_inv_def)
  qed (simp_all add: s'_def len)
  then have "euler_inv uu0 ww0 grv deltat len (Suc n) s0 ?s'"
    by (simp only: s'_eq)
  with s step show ?case by simp
qed

section \<open>The maximum principle of the explicit scheme\<close>

lemma stencil_between:
  fixes alpha :: real
  assumes "0 \<le> alpha" and "alpha \<le> 1 / 2"
    and "lo \<le> a" "a \<le> hi" "lo \<le> b" "b \<le> hi" "lo \<le> c" "c \<le> hi"
  shows "lo \<le> alpha * a + (1 - 2 * alpha) * b + alpha * c"
    and "alpha * a + (1 - 2 * alpha) * b + alpha * c \<le> hi"
proof -
  from assms have w: "0 \<le> 1 - 2 * alpha" by simp
  have "alpha * lo + (1 - 2 * alpha) * lo + alpha * lo
          \<le> alpha * a + (1 - 2 * alpha) * b + alpha * c"
    using assms w by (intro add_mono mult_left_mono) simp_all
  then show "lo \<le> alpha * a + (1 - 2 * alpha) * b + alpha * c"
    by (simp add: algebra_simps)
  have "alpha * a + (1 - 2 * alpha) * b + alpha * c
          \<le> alpha * hi + (1 - 2 * alpha) * hi + alpha * hi"
    using assms w by (intro add_mono mult_left_mono) simp_all
  then show "alpha * a + (1 - 2 * alpha) * b + alpha * c \<le> hi"
    by (simp add: algebra_simps)
qed

lemma ftcs_step_empty: "ftcs_step alpha l r [] = Inl IndexError"
  by (simp add: ftcs_step_def set_slice_1_m1_def map3_def slice_0_m2_def slice_1_m1_def
      slice_2_def Let_def)

lemma ftcs_step_between:
  assumes "0 \<le> alpha" and "alpha \<le> 1 / 2" and "lo \<le> l" "l \<le> hi" "lo \<le> r" "r \<le> hi"
    and "\<forall>x\<in>set u. lo \<le> x \<and> x \<le> hi" and "ftcs_step alpha l r u = Inr v"
  shows "\<forall>x\<in>set v. lo \<le> x \<and> x \<le> hi"
proof -
  from assms(8) have ne: "u \<noteq> []"
    by (auto simp add: ftcs_step_empty)
  from assms(8) ftcs_step_from_copy [OF ne, of alpha l r]
  have v: "v = ftcs_from_copy alpha l r u" by simp
  have u: "lo \<le> u ! j \<and> u ! j \<le> hi" if "j < length u" for j
    using assms(7) that by simp
  have "lo \<le> v ! j \<and> v ! j \<le> hi" if j: "j < length v" for j
  proof -
    from j have jl: "j < length u" by (simp add: v ftcs_from_copy_def)
    consider "j = length u - 1" | "j \<noteq> length u - 1" "j = 0" | "j \<noteq> length u - 1" "j \<noteq> 0"
      by blast
    then show ?thesis
    proof cases
      case 1
      with jl assms(5,6) show ?thesis by (simp add: v ftcs_from_copy_def)
    next
      case 2
      with jl assms(3,4) show ?thesis by (simp add: v ftcs_from_copy_def)
    next
      case 3
      with jl have j1: "j - 1 < length u" "j + 1 < length u" by auto
      have "v ! j = alpha * u ! (j - 1) + (1 - 2 * alpha) * u ! j + alpha * u ! (j + 1)"
        using 3 jl by (simp add: v ftcs_from_copy_def)
      then show ?thesis
        using stencil_between [OF assms(1,2), of lo "u ! (j - 1)" hi "u ! j" "u ! (j + 1)"]
          u [OF j1(1)] u [OF jl] u [OF j1(2)]
        by simp
    qed
  qed
  then show ?thesis by (auto simp add: in_set_conv_nth)
qed

lemma ftcs_loop_between:
  assumes "0 \<le> alpha" and "alpha \<le> 1 / 2" and "lo \<le> l" "l \<le> hi" "lo \<le> r" "r \<le> hi"
  shows "\<forall>x\<in>set u. lo \<le> x \<and> x \<le> hi \<Longrightarrow> ftcs_loop alpha l r n u = Inr v \<Longrightarrow>
         \<forall>x\<in>set v. lo \<le> x \<and> x \<le> hi"
proof (induction n arbitrary: u)
  case 0
  then show ?case by simp
next
  case (Suc n)
  from Suc.prems(2) obtain w where w: "ftcs_step alpha l r u = Inr w"
    and v: "ftcs_loop alpha l r n w = Inr v"
    by (auto split: sum.splits)
  from ftcs_step_between [OF assms Suc.prems(1) w]
  have "\<forall>x\<in>set w. lo \<le> x \<and> x \<le> hi" .
  from Suc.IH [OF this v] show ?case .
qed

lemma sum_list_between:
  fixes xs :: "real list"
  assumes "\<forall>x\<in>set xs. lo \<le> x \<and> x \<le> hi"
  shows "real (length xs) * lo \<le> sum_list xs" and "sum_list xs \<le> real (length xs) * hi"
  using assms by (induction xs) (auto simp add: algebra_simps add_mono)

lemma set_slice_1_m1: "set (slice_1_m1 a) \<subseteq> set a"
  unfolding slice_1_m1_def by (meson set_take_subset set_drop_subset subset_trans)

section \<open>Truncation errors of the three difference quotients of the sine\<close>

lemma sin_lower_cubic:
  fixes h :: real
  assumes "0 \<le> h"
  shows "h - h ^ 3 / 6 \<le> sin h"
proof -
  have "(\<Sum>m<3. sin_coeff m * h ^ m) = h"
    by (simp add: sin_coeff_def numeral_3_eq_3)
  with Maclaurin_sin_bound [of h 3] have "\<bar>sin h - h\<bar> \<le> inverse (fact 3) * \<bar>h\<bar> ^ 3"
    by simp
  moreover have "inverse (fact 3) * \<bar>h\<bar> ^ 3 = h ^ 3 / 6"
    using assms by (simp add: fact_numeral)
  ultimately show ?thesis by linarith
qed

lemma one_minus_cos:
  fixes h :: real
  shows "1 - cos h = 2 * (sin (h / 2)) ^ 2"
  using cos_double_sin [of "h / 2"] by simp

lemma one_minus_cos_upper:
  fixes h :: real
  shows "1 - cos h \<le> h ^ 2 / 2"
proof -
  have "\<bar>sin (h / 2)\<bar> \<le> \<bar>h / 2\<bar>" by (rule abs_sin_x_le_abs_x)
  then have "(sin (h / 2)) ^ 2 \<le> (h / 2) ^ 2"
    by (metis power2_abs abs_ge_zero power_mono)
  then show ?thesis by (simp add: one_minus_cos power_divide)
qed

lemma one_minus_cos_lower:
  fixes h :: real
  assumes "0 \<le> h" and "h \<le> 1"
  shows "h ^ 2 / 2 - h ^ 4 / 24 \<le> 1 - cos h"
proof -
  let ?a = "h / 2 - (h / 2) ^ 3 / 6"
  have a0: "0 \<le> ?a"
  proof -
    have "(h / 2) ^ 3 / 6 = (h / 2) * (h ^ 2 / 24)" by (simp add: power3_eq_cube power2_eq_square)
    moreover have "h ^ 2 / 24 \<le> 1"
    proof -
      have "h ^ 2 \<le> 1" using assms by (simp add: power_le_one)
      then show ?thesis by simp
    qed
    moreover have "0 \<le> h / 2" using assms by simp
    ultimately have "(h / 2) ^ 3 / 6 \<le> (h / 2) * 1"
      by (simp only: mult_left_mono)
    then show ?thesis by simp
  qed
  have "?a \<le> sin (h / 2)"
    using assms by (intro sin_lower_cubic) simp
  with a0 have "?a ^ 2 \<le> (sin (h / 2)) ^ 2"
    by (intro power_mono) simp_all
  moreover have "h ^ 2 / 4 - h ^ 4 / 48 \<le> ?a ^ 2"
  proof -
    have "?a ^ 2 = h ^ 2 / 4 - h ^ 4 / 48 + (h ^ 3 / 48) ^ 2"
      by (simp add: power2_eq_square power3_eq_cube power4_eq_xxxx field_simps)
    then show ?thesis by simp
  qed
  ultimately have "h ^ 2 / 4 - h ^ 4 / 48 \<le> (sin (h / 2)) ^ 2" by linarith
  then show ?thesis by (simp add: one_minus_cos)
qed

lemma forward_error:
  fixes x h :: real
  assumes "h \<noteq> 0"
  shows "(sin (x + h) - sin x) / h - cos x = - cos x * (1 - sin h / h) - sin x * ((1 - cos h) / h)"
  using assms by (simp add: sin_add field_simps)

lemma backward_error:
  fixes x h :: real
  assumes "h \<noteq> 0"
  shows "(sin x - sin (x - h)) / h - cos x = - cos x * (1 - sin h / h) + sin x * ((1 - cos h) / h)"
  using assms by (simp add: sin_diff field_simps)

lemma centred_error:
  fixes x h :: real
  assumes "h \<noteq> 0"
  shows "(sin (x + h) - sin (x - h)) / (2 * h) - cos x = - cos x * (1 - sin h / h)"
  using assms by (simp add: sin_add sin_diff field_simps)

lemma sinc_defect:
  fixes h :: real
  assumes "0 < h"
  shows "0 \<le> 1 - sin h / h" and "1 - sin h / h \<le> h ^ 2 / 6"
proof -
  have "sin h \<le> h" using assms by (intro sin_x_le_x) simp
  with assms show "0 \<le> 1 - sin h / h" by (simp add: field_simps)
  have "h - h ^ 3 / 6 \<le> sin h" using assms by (intro sin_lower_cubic) simp
  then have "(h - h ^ 3 / 6) / h \<le> sin h / h"
    using assms by (intro divide_right_mono) simp_all
  moreover have "(h - h ^ 3 / 6) / h = 1 - h ^ 2 / 6"
    using assms by (simp add: field_simps power2_eq_square power3_eq_cube)
  ultimately show "1 - sin h / h \<le> h ^ 2 / 6" by linarith
qed

lemma cosc:
  fixes h :: real
  assumes "0 < h" and "h \<le> 1"
  shows "h / 2 - h ^ 3 / 24 \<le> (1 - cos h) / h" and "(1 - cos h) / h \<le> h / 2"
proof -
  have "(h ^ 2 / 2 - h ^ 4 / 24) / h \<le> (1 - cos h) / h"
    using assms by (intro divide_right_mono one_minus_cos_lower) simp_all
  moreover have "(h ^ 2 / 2 - h ^ 4 / 24) / h = h / 2 - h ^ 3 / 24"
    using assms by (simp add: field_simps power2_eq_square power3_eq_cube power4_eq_xxxx)
  ultimately show "h / 2 - h ^ 3 / 24 \<le> (1 - cos h) / h" by linarith
  have "(1 - cos h) / h \<le> (h ^ 2 / 2) / h"
    using assms by (intro divide_right_mono one_minus_cos_upper) simp_all
  moreover have "(h ^ 2 / 2) / h = h / 2"
    using assms by (simp add: field_simps power2_eq_square)
  ultimately show "(1 - cos h) / h \<le> h / 2" by linarith
qed

lemma sin_ge_half:
  fixes x :: real
  assumes "pi / 6 \<le> x" and "x \<le> 5 * pi / 6"
  shows "1 / 2 \<le> sin x"
proof (cases "x \<le> pi / 2")
  case True
  have "sin (pi / 6) \<le> sin x"
    using assms True by (intro sin_monotone_2pi_le) simp_all
  then show ?thesis by (simp add: sin_30)
next
  case False
  have "sin (pi / 6) \<le> sin (pi - x)"
    using assms False by (intro sin_monotone_2pi_le) simp_all
  then show ?thesis by (simp add: sin_30)
qed

lemma centred_bound:
  fixes x h :: real
  assumes "0 < h"
  shows "\<bar>(sin (x + h) - sin (x - h)) / (2 * h) - cos x\<bar> \<le> h ^ 2 / 6"
proof -
  from assms have h0: "h \<noteq> 0" by simp
  note s = sinc_defect [OF assms]
  have "\<bar>(sin (x + h) - sin (x - h)) / (2 * h) - cos x\<bar> = \<bar>cos x\<bar> * (1 - sin h / h)"
    using s(1) by (simp add: centred_error [OF h0] abs_mult)
  also have "\<dots> \<le> 1 * (1 - sin h / h)"
    using s(1) by (intro mult_right_mono) simp_all
  finally have "\<bar>(sin (x + h) - sin (x - h)) / (2 * h) - cos x\<bar> \<le> 1 - sin h / h"
    by simp
  then show ?thesis using s(2) by linarith
qed

lemma one_sided_bound:
  fixes x h :: real
  assumes "0 < h" and "h \<le> 1" and "\<bar>sin x\<bar> \<le> h"
  shows "\<bar>(sin (x + h) - sin x) / h - cos x\<bar> \<le> 2 / 3 * h ^ 2"
    and "\<bar>(sin x - sin (x - h)) / h - cos x\<bar> \<le> 2 / 3 * h ^ 2"
proof -
  from assms have h0: "h \<noteq> 0" by simp
  note s = sinc_defect [OF assms(1)]
  note c = cosc [OF assms(1,2)]
  have c0: "0 \<le> (1 - cos h) / h" using assms(1) by simp
  have a: "\<bar>cos x * (1 - sin h / h)\<bar> \<le> h ^ 2 / 6"
  proof -
    have "\<bar>cos x * (1 - sin h / h)\<bar> = \<bar>cos x\<bar> * (1 - sin h / h)"
      using s(1) by (simp add: abs_mult)
    also have "\<dots> \<le> 1 * (1 - sin h / h)"
      using s(1) by (intro mult_right_mono) simp_all
    finally have "\<bar>cos x * (1 - sin h / h)\<bar> \<le> 1 - sin h / h" by simp
    then show ?thesis using s(2) by linarith
  qed
  have b: "\<bar>sin x * ((1 - cos h) / h)\<bar> \<le> h ^ 2 / 2"
  proof -
    have "\<bar>sin x * ((1 - cos h) / h)\<bar> = \<bar>sin x\<bar> * ((1 - cos h) / h)"
      by (simp only: abs_mult abs_of_nonneg [OF c0])
    also have "\<dots> \<le> h * (h / 2)"
      using assms c c0 by (intro mult_mono) simp_all
    finally show ?thesis by (simp add: power2_eq_square)
  qed
  show "\<bar>(sin (x + h) - sin x) / h - cos x\<bar> \<le> 2 / 3 * h ^ 2"
    unfolding forward_error [OF h0] using a b by linarith
  show "\<bar>(sin x - sin (x - h)) / h - cos x\<bar> \<le> 2 / 3 * h ^ 2"
    unfolding backward_error [OF h0] using a b by linarith
qed

lemma one_sided_lower:
  fixes x h :: real
  assumes "0 < h" and "h \<le> 1 / 5" and "1 / 2 \<le> sin x"
  shows "2 / 3 * h ^ 2 < \<bar>(sin (x + h) - sin x) / h - cos x\<bar>"
    and "2 / 3 * h ^ 2 < \<bar>(sin x - sin (x - h)) / h - cos x\<bar>"
proof -
  from assms have h0: "h \<noteq> 0" and h1: "h \<le> 1" by simp_all
  note s = sinc_defect [OF assms(1)]
  note c = cosc [OF assms(1) h1]
  have c0: "0 \<le> (1 - cos h) / h" using assms(1) by simp
  have a: "\<bar>cos x * (1 - sin h / h)\<bar> \<le> h ^ 2 / 6"
  proof -
    have "\<bar>cos x * (1 - sin h / h)\<bar> = \<bar>cos x\<bar> * (1 - sin h / h)"
      using s(1) by (simp add: abs_mult)
    also have "\<dots> \<le> 1 * (1 - sin h / h)"
      using s(1) by (intro mult_right_mono) simp_all
    finally have "\<bar>cos x * (1 - sin h / h)\<bar> \<le> 1 - sin h / h" by simp
    then show ?thesis using s(2) by linarith
  qed
  have b: "1 / 2 * (h / 2 - h ^ 3 / 24) \<le> sin x * ((1 - cos h) / h)"
  proof -
    have "0 \<le> h / 2 - h ^ 3 / 24"
    proof -
      have "h ^ 3 = h * h ^ 2" by (simp add: power3_eq_cube power2_eq_square)
      moreover have "h ^ 2 \<le> 1" using assms(1) h1 by (simp add: power_le_one)
      ultimately have "h ^ 3 \<le> h * 1" using assms(1) by (simp only: mult_left_mono)
      then show ?thesis using assms(1) by simp
    qed
    then show ?thesis using assms(3) c(1) by (intro mult_mono) simp_all
  qed
  have sq: "h ^ 2 \<le> h / 5"
  proof -
    have "h * h \<le> h * (1 / 5)" using assms by (intro mult_left_mono) simp_all
    then show ?thesis by (simp add: power2_eq_square)
  qed
  have cu: "h ^ 3 \<le> h / 25"
  proof -
    have "h * h ^ 2 \<le> h * (h / 5)" using assms sq by (intro mult_left_mono) simp_all
    also have "\<dots> = h ^ 2 / 5" by (simp add: power2_eq_square)
    finally show ?thesis using sq by (simp add: power3_eq_cube power2_eq_square)
  qed
  have gap: "2 / 3 * h ^ 2 + h ^ 2 / 6 < 1 / 2 * (h / 2 - h ^ 3 / 24)"
    using sq cu assms(1) by simp
  show "2 / 3 * h ^ 2 < \<bar>(sin (x + h) - sin x) / h - cos x\<bar>"
    unfolding forward_error [OF h0] using a b gap by linarith
  show "2 / 3 * h ^ 2 < \<bar>(sin x - sin (x - h)) / h - cos x\<bar>"
    unfolding backward_error [OF h0] using a b gap by linarith
qed

section \<open>The sine notebook\<close>

lemma length_gridx: "length (gridx h) = nat \<lceil>2 * pi / h\<rceil>"
  by (simp add: gridx_def arange_def)

lemma nth_gridx: "i < length (gridx h) \<Longrightarrow> gridx h ! i = real i * h"
  by (simp add: gridx_def arange_def)

lemma gridx_covers_period:
  assumes "0 < h"
  shows "2 * pi \<le> real (length (gridx h)) * h"
    and "real (length (gridx h)) * h < 2 * pi + h"
proof -
  let ?y = "2 * pi / h"
  from assms have y0: "0 < ?y" by simp
  then have c0: "0 \<le> \<lceil>?y\<rceil>" by linarith
  have len: "real (length (gridx h)) = of_int \<lceil>?y\<rceil>"
    using c0 by (simp add: length_gridx)
  have "?y \<le> of_int \<lceil>?y\<rceil>" by (rule le_of_int_ceiling)
  then have "?y * h \<le> of_int \<lceil>?y\<rceil> * h"
    using assms by (intro mult_right_mono) simp_all
  then show "2 * pi \<le> real (length (gridx h)) * h"
    using assms by (simp add: len)
  have "of_int \<lceil>?y\<rceil> < ?y + 1" by linarith
  then have "of_int \<lceil>?y\<rceil> * h < (?y + 1) * h"
    using assms by (intro mult_strict_right_mono) simp_all
  then show "real (length (gridx h)) * h < 2 * pi + h"
    using assms by (simp add: len algebra_simps)
qed

lemma gridx_mid_point:
  assumes "0 < h" and "h \<le> 1 / 5"
  obtains i where "1 \<le> i" and "i + 1 < length (gridx h)"
    and "pi / 6 \<le> real i * h" and "real i * h \<le> 5 * pi / 6"
proof -
  let ?y = "pi / (6 * h)"
  define i where "i = nat \<lceil>?y\<rceil>"
  from assms have y0: "0 < ?y" by simp
  then have c0: "0 < \<lceil>?y\<rceil>" by linarith
  then have ri: "real i = of_int \<lceil>?y\<rceil>" by (simp add: i_def)
  from c0 have "1 \<le> \<lceil>?y\<rceil>" by linarith
  then have i1: "1 \<le> i" unfolding i_def by linarith
  have "?y \<le> real i" unfolding ri by (rule le_of_int_ceiling)
  then have "?y * h \<le> real i * h"
    using assms by (intro mult_right_mono) simp_all
  then have lo: "pi / 6 \<le> real i * h"
    using assms by simp
  have "real i < ?y + 1" unfolding ri by linarith
  then have "real i * h < (?y + 1) * h"
    using assms by (intro mult_strict_right_mono) simp_all
  then have up: "real i * h < pi / 6 + h"
    using assms by (simp add: algebra_simps)
  have p2: "2 \<le> pi" by (rule pi_ge_two)
  from up assms p2 have hi: "real i * h \<le> 5 * pi / 6" by simp
  have "real (i + 1) * h < pi / 6 + 2 * h"
    using up by (simp add: algebra_simps)
  also have "\<dots> \<le> 2 * pi" using assms p2 by simp
  also have "\<dots> \<le> real (length (gridx h)) * h"
    by (rule gridx_covers_period(1) [OF assms(1)])
  finally have "real (i + 1) < real (length (gridx h))"
    using assms(1) by (simp only: mult_less_cancel_right_pos)
  then have "i + 1 < length (gridx h)" by simp
  with i1 lo hi show ?thesis by (intro that)
qed

lemma gridx_last_sin:
  assumes "0 < h"
  shows "\<bar>sin (real (length (gridx h) - 1) * h)\<bar> \<le> h"
proof -
  let ?N = "length (gridx h)"
  note cov = gridx_covers_period [OF assms]
  have pos: "0 < ?N"
  proof (rule ccontr)
    assume "\<not> 0 < ?N"
    with cov(1) have "pi \<le> 0" by simp
    with pi_gt_zero show False by linarith
  qed
  then have "1 \<le> ?N" by linarith
  then have "real (?N - 1) = real ?N - 1" by (simp only: of_nat_diff of_nat_1)
  then have xl: "real (?N - 1) * h = real ?N * h - h" by (simp add: algebra_simps)
  have "sin (real (?N - 1) * h) = sin (real (?N - 1) * h - 2 * pi)"
    by (simp add: sin_diff)
  moreover have "\<bar>sin (real (?N - 1) * h - 2 * pi)\<bar> \<le> \<bar>real (?N - 1) * h - 2 * pi\<bar>"
    by (rule abs_sin_x_le_abs_x)
  moreover have "\<bar>real (?N - 1) * h - 2 * pi\<bar> \<le> h"
    using cov xl by linarith
  ultimately show ?thesis by simp
qed

lemma sine_samples:
  assumes "i < length (gridx h)"
  shows "sinefunc (gridx h) ! i = sin (real i * h)"
    and "cosinefunc (gridx h) ! i = cos (real i * h)"
  using assms by (simp_all add: sinefunc_def cosinefunc_def nth_gridx)

lemma max_abs_error_le:
  assumes "length est = n" and "length tru = n" and "0 < n"
    and "\<And>i. i < n \<Longrightarrow> \<bar>est ! i - tru ! i\<bar> \<le> b"
  shows "max_abs_error est tru \<le> b"
proof -
  let ?E = "map abs (map2 (-) est tru)"
  have len: "length ?E = n" using assms(1,2) by simp
  with assms(3) have ne: "set ?E \<noteq> {}" by auto
  have "a \<le> b" if "a \<in> set ?E" for a
  proof -
    from that obtain i where i: "i < length ?E" and a: "a = ?E ! i"
      by (auto simp add: in_set_conv_nth)
    from i have "i < n" unfolding len .
    with assms(1,2,4) a show ?thesis by simp
  qed
  with ne show ?thesis unfolding max_abs_error_def by simp
qed

lemma max_abs_error_ge:
  assumes "length est = n" and "length tru = n" and "i < n"
  shows "\<bar>est ! i - tru ! i\<bar> \<le> max_abs_error est tru"
proof -
  let ?E = "map abs (map2 (-) est tru)"
  have "?E ! i \<in> set ?E" using assms by (intro nth_mem) simp
  moreover have "?E ! i = \<bar>est ! i - tru ! i\<bar>" using assms by simp
  ultimately have "\<bar>est ! i - tru ! i\<bar> \<in> set ?E" by simp
  then show ?thesis unfolding max_abs_error_def by (intro Max_ge) simp_all
qed

section \<open>Boundary values\<close>

text \<open>
  C2.  After every pass of each of the three time loops the two boundary values are what
  the scheme prescribes: the two Dirichlet constants in the explicit diffusion loop, the
  values two points in (\<open>u[0] = u[2]\<close> and \<open>u[N-1] = u[N-3]\<close>) in the wave loop, and in
  the implicit loop the values the identity rows pin, which are the boundary values of
  the field the loop started from.  None of the loops raises.
\<close>

theorem boundary_after_every_step:
  assumes "0 < n"
  shows "(2 \<le> length u \<longrightarrow>
            (\<exists>v. ftcs_loop alpha uu_left_dirich uu_right_dirich n u = Inr v \<and>
                 length v = length u \<and>
                 v ! 0 = uu_left_dirich \<and> v ! (length u - 1) = uu_right_dirich)) \<and>
         (3 \<le> length (uu_cur s0) \<and> length bathy_a = length (uu_cur s0) \<longrightarrow>
            (\<exists>s. wave_loop grv deltat_sec deltax bathy_a n s0 = Inr s \<and>
                 length (uu_cur s) = length (uu_cur s0) \<and>
                 uu_cur s ! 0 = uu_cur s ! 2 \<and>
                 uu_cur s ! (length (uu_cur s0) - 1) = uu_cur s ! (length (uu_cur s0) - 3))) \<and>
         (2 \<le> xnum \<and> hmat beta xnum = Inr h \<and> is_inverse xnum h invhmat \<and> length w = xnum \<longrightarrow>
            (\<exists>v. implicit_loop xnum invhmat n w = Inr v \<and> length v = xnum \<and>
                 v ! 0 = w ! 0 \<and> v ! (xnum - 1) = w ! (xnum - 1)))"
proof (intro conjI impI)
  assume len: "2 \<le> length u"
  then have "u \<noteq> []" by auto
  from ftcs_loop_inv [OF this, of alpha uu_left_dirich uu_right_dirich n] assms len
  show "\<exists>v. ftcs_loop alpha uu_left_dirich uu_right_dirich n u = Inr v \<and>
             length v = length u \<and>
             v ! 0 = uu_left_dirich \<and> v ! (length u - 1) = uu_right_dirich"
    by blast
next
  assume "3 \<le> length (uu_cur s0) \<and> length bathy_a = length (uu_cur s0)"
  then have "3 \<le> length (uu_cur s0)" and "length bathy_a = length (uu_cur s0)"
    by simp_all
  from wave_loop_inv [OF this, of grv deltat_sec deltax n] assms
  show "\<exists>s. wave_loop grv deltat_sec deltax bathy_a n s0 = Inr s \<and>
             length (uu_cur s) = length (uu_cur s0) \<and>
             uu_cur s ! 0 = uu_cur s ! 2 \<and>
             uu_cur s ! (length (uu_cur s0) - 1) = uu_cur s ! (length (uu_cur s0) - 3)"
    by blast
next
  assume "2 \<le> xnum \<and> hmat beta xnum = Inr h \<and> is_inverse xnum h invhmat \<and> length w = xnum"
  then have "2 \<le> xnum" "hmat beta xnum = Inr h" "is_inverse xnum h invhmat" "length w = xnum"
    by simp_all
  then show "\<exists>v. implicit_loop xnum invhmat n w = Inr v \<and> length v = xnum \<and>
                  v ! 0 = w ! 0 \<and> v ! (xnum - 1) = w ! (xnum - 1)"
    by (rule implicit_loop_inv)
qed

theorem boundary_after_every_step_witness:
  "0 < (2 :: nat) \<and> 2 \<le> length [1, 2, 4 :: real] \<and>
   ftcs_loop (1 / 4) 7 9 2 [1, 2, 4] = Inr [7, 41 / 8, 9] \<and>
   3 \<le> length (uu_cur \<lparr>uu_old = [0, 0, 0], uu_cur = [0, 0, 1]\<rparr>) \<and>
   wave_loop 4 1 1 [1, 1, 3] 2 \<lparr>uu_old = [0, 0, 0], uu_cur = [0, 0, 1]\<rparr> =
     Inr \<lparr>uu_old = [1, 4, 1], uu_cur = [1, - 16, 1]\<rparr> \<and>
   hmat 1 3 = Inr [[1, 0, 0], [- 1, 3, - 1], [0, 0, 1]] \<and>
   is_inverse 3 [[1, 0, 0], [- 1, 3, - 1], [0, 0, 1]]
     [[1, 0, 0], [1 / 3, 1 / 3, 1 / 3], [0, 0, 1]] \<and>
   implicit_loop 3 [[1, 0, 0], [1 / 3, 1 / 3, 1 / 3], [0, 0, 1]] 2 [3, 0, 6] = Inr [3, 4, 6]"
proof -
  have n: "0 < (2 :: nat)" by simp
  note inst = boundary_after_every_step [OF n, of "[1, 2, 4]" "1 / 4" 7 9
      "\<lparr>uu_old = [0, 0, 0], uu_cur = [0, 0, 1]\<rparr>" "[1, 1, 3]" 4 1 1
      3 1 "[[1, 0, 0], [- 1, 3, - 1], [0, 0, 1]]"
      "[[1, 0, 0], [1 / 3, 1 / 3, 1 / 3], [0, 0, 1]]" "[3, 0, 6]"]
  show ?thesis
    using inst by (simp add: hmat_3 is_inverse_3 wave_2 ftcs_2 impl_2)
qed

section \<open>Reads and writes within a step\<close>

text \<open>
  C3.  In each scheme the next field is a function of copies of the earlier fields only.
  The explicit diffusion step returns exactly the field computed point by point from
  the copy of the previous field; every interior value of the wave step is the stencil
  applied to the previous field and the one before it; the implicit step is the product
  of the fixed inverse matrix with the previous field.
\<close>

theorem update_reads_previous_fields_only:
  "(u \<noteq> [] \<longrightarrow>
      ftcs_step alpha uu_left_dirich uu_right_dirich u
        = Inr (ftcs_from_copy alpha uu_left_dirich uu_right_dirich u)) \<and>
   (3 \<le> length (uu_cur s) \<and> length bathy_a = length (uu_cur s) \<and>
    (0 < tt \<longrightarrow> length (uu_old s) = length (uu_cur s)) \<longrightarrow>
      (\<exists>c. wave_step grv deltat_sec deltax bathy_a tt s = Inr \<lparr>uu_old = uu_cur s, uu_cur = c\<rparr> \<and>
           length c = length (uu_cur s) \<and>
           (\<forall>j. 1 \<le> j \<and> j + 1 < length (uu_cur s) \<longrightarrow>
                c ! j = wave_interior grv deltat_sec deltax bathy_a tt (uu_old s) (uu_cur s) j))) \<and>
   (is_square xnum invhmat \<and> length w = xnum \<longrightarrow>
      implicit_step xnum invhmat w = Inr (mat_vec invhmat w))"
proof (intro conjI impI)
  assume "u \<noteq> []"
  then show "ftcs_step alpha uu_left_dirich uu_right_dirich u
        = Inr (ftcs_from_copy alpha uu_left_dirich uu_right_dirich u)"
    by (rule ftcs_step_from_copy)
next
  assume "3 \<le> length (uu_cur s) \<and> length bathy_a = length (uu_cur s) \<and>
    (0 < tt \<longrightarrow> length (uu_old s) = length (uu_cur s))"
  then have "3 \<le> length (uu_cur s)" "length bathy_a = length (uu_cur s)"
    "0 < tt \<longrightarrow> length (uu_old s) = length (uu_cur s)"
    by simp_all
  from wave_step_Inr [OF this, of grv deltat_sec deltax]
  show "\<exists>c. wave_step grv deltat_sec deltax bathy_a tt s = Inr \<lparr>uu_old = uu_cur s, uu_cur = c\<rparr> \<and>
           length c = length (uu_cur s) \<and>
           (\<forall>j. 1 \<le> j \<and> j + 1 < length (uu_cur s) \<longrightarrow>
                c ! j = wave_interior grv deltat_sec deltax bathy_a tt (uu_old s) (uu_cur s) j)"
    by blast
next
  assume "is_square xnum invhmat \<and> length w = xnum"
  then show "implicit_step xnum invhmat w = Inr (mat_vec invhmat w)"
    by (simp add: implicit_step_Inr)
qed

theorem update_reads_previous_fields_only_witness:
  "[1, 2, 4 :: real] \<noteq> [] \<and>
   ftcs_step (1 / 4) 7 9 [1, 2, 4] = Inr (ftcs_from_copy (1 / 4) 7 9 [1, 2, 4]) \<and>
   ftcs_from_copy (1 / 4) 7 9 [1, 2, 4] = [7, 9 / 4, 9] \<and>
   3 \<le> length (uu_cur \<lparr>uu_old = [0, 0, 1], uu_cur = [1, 4, 1]\<rparr>) \<and>
   wave_step 4 1 1 [1, 1, 3] 1 \<lparr>uu_old = [0, 0, 1], uu_cur = [1, 4, 1]\<rparr>
     = Inr \<lparr>uu_old = [1, 4, 1], uu_cur = [1, - 16, 1]\<rparr> \<and>
   wave_interior 4 1 1 [1, 1, 3] 1 [0, 0, 1] [1, 4, 1] 1 = - 16 \<and>
   is_square 3 [[1, 0, 0], [1 / 3, 1 / 3, 1 / 3], [0, 0, 1]] \<and>
   implicit_step 3 [[1, 0, 0], [1 / 3, 1 / 3, 1 / 3], [0, 0, 1]] [3, 0, 6] = Inr [3, 3, 6]"
  using update_reads_previous_fields_only [of "[1, 2, 4]" "1 / 4" 7 9
      "\<lparr>uu_old = [0, 0, 1], uu_cur = [1, 4, 1]\<rparr>" "[1, 1, 3]" 1 4 1 1
      3 "[[1, 0, 0], [1 / 3, 1 / 3, 1 / 3], [0, 0, 1]]" "[3, 0, 6]"]
  by (simp add: ftcs_from_copy_def wave_interior_def is_square_def mat_vec_def dot_def Let_def
      upt_rec numeral_3_eq_3 power_divide
      wave_step_def wave_rhs_def sp_term1_def sp_term2_def fac1_def
      fac2_def map3_def slice_0_m2_def slice_1_m1_def slice_2_def set_slice_1_m1_def)

section \<open>The implicit scheme\<close>

lemma implicit_notebook_loop:
  assumes "hmat alpha (length u0) = Inr h" and "linalg_inv h = Inr hi"
  shows "implicit_notebook linalg_inv alpha l r nsteps u0 = implicit_loop (length u0) hi nsteps u0"
  using assms by (simp add: implicit_notebook_def Let_def)

text \<open>
  C4.  On a grid of at least two points the coefficient matrix is built without an
  error; it is square and its entries are those of the tridiagonal matrix with identity
  rows first and last.  Whenever \<open>np.linalg.inv\<close> returns, the whole run is the time loop
  on that one inverse, built before the loop; each pass returns the product of the
  inverse with the current field and nothing else, and this product is the one and only
  solution \<open>v\<close> of \<open>hmat \<cdot> v = u\<close>.
\<close>

theorem implicit_scheme:
  assumes "2 \<le> length u0" and "inv_spec linalg_inv"
  shows "\<exists>h. hmat alpha (length u0) = Inr h \<and> is_square (length u0) h \<and>
           (\<forall>i j. i < length u0 \<and> j < length u0 \<longrightarrow>
                  h ! i ! j = implicit_coeff alpha (length u0) i j) \<and>
           (\<forall>invhmat. linalg_inv h = Inr invhmat \<longrightarrow>
              implicit_notebook linalg_inv alpha uu_left_dirich uu_right_dirich nsteps u0
                = implicit_loop (length u0) invhmat nsteps u0 \<and>
              (\<forall>u. length u = length u0 \<longrightarrow>
                 implicit_step (length u0) invhmat u = Inr (mat_vec invhmat u) \<and>
                 length (mat_vec invhmat u) = length u0 \<and>
                 mat_vec h (mat_vec invhmat u) = u \<and>
                 (\<forall>x. length x = length u0 \<and> mat_vec h x = u \<longrightarrow> x = mat_vec invhmat u)))"
proof -
  let ?n = "length u0"
  obtain h where h: "hmat alpha ?n = Inr h"
    using hmat_Inr [OF assms(1)] by blast
  note ent = hmat_entries [OF assms(1) h]
  have "implicit_notebook linalg_inv alpha uu_left_dirich uu_right_dirich nsteps u0
          = implicit_loop ?n invhmat nsteps u0 \<and>
        (\<forall>u. length u = ?n \<longrightarrow>
           implicit_step ?n invhmat u = Inr (mat_vec invhmat u) \<and>
           length (mat_vec invhmat u) = ?n \<and>
           mat_vec h (mat_vec invhmat u) = u \<and>
           (\<forall>x. length x = ?n \<and> mat_vec h x = u \<longrightarrow> x = mat_vec invhmat u))"
    if inv: "linalg_inv h = Inr invhmat" for invhmat
  proof -
    from assms(2) inv have "is_inverse (length h) h invhmat"
      by (simp add: inv_spec_def)
    with ent(1) have isinv: "is_inverse ?n h invhmat"
      by (simp add: is_square_length)
    have "implicit_step ?n invhmat u = Inr (mat_vec invhmat u) \<and>
           length (mat_vec invhmat u) = ?n \<and>
           mat_vec h (mat_vec invhmat u) = u \<and>
           (\<forall>x. length x = ?n \<and> mat_vec h x = u \<longrightarrow> x = mat_vec invhmat u)"
      if u: "length u = ?n" for u
      using implicit_step_boundary(1-3) [OF assms(1) h isinv u]
        inverse_solves(2) [OF ent(1) isinv u]
      by blast
    then show ?thesis
      using implicit_notebook_loop [of alpha u0 h linalg_inv invhmat, OF h inv] by blast
  qed
  with h ent show ?thesis by blast
qed

theorem implicit_scheme_witness:
  "2 \<le> length [3, 0, 6 :: real] \<and> inv_spec inv_3 \<and>
   hmat 1 (length [3, 0, 6 :: real]) = Inr [[1, 0, 0], [- 1, 3, - 1], [0, 0, 1]] \<and>
   inv_3 [[1, 0, 0], [- 1, 3, - 1], [0, 0, 1]] = Inr [[1, 0, 0], [1 / 3, 1 / 3, 1 / 3], [0, 0, 1]] \<and>
   implicit_notebook inv_3 1 5 8 2 [3, 0, 6] = Inr [3, 4, 6] \<and>
   implicit_step 3 [[1, 0, 0], [1 / 3, 1 / 3, 1 / 3], [0, 0, 1]] [3, 0, 6] = Inr [3, 3, 6] \<and>
   mat_vec [[1, 0, 0], [- 1, 3, - 1], [0, 0, 1]] [3, 3, 6] = [3, 0, 6]"
proof -
  have len: "2 \<le> length [3, 0, 6 :: real]" by simp
  from implicit_scheme [OF len inv_spec_3, of 1 5 8 2]
  obtain h where h: "hmat 1 (length [3, 0, 6 :: real]) = Inr h"
    and run: "\<forall>invhmat. inv_3 h = Inr invhmat \<longrightarrow>
              implicit_notebook inv_3 1 5 8 2 [3, 0, 6]
                = implicit_loop (length [3, 0, 6 :: real]) invhmat 2 [3, 0, 6] \<and>
              (\<forall>u. length u = length [3, 0, 6 :: real] \<longrightarrow>
                 implicit_step (length [3, 0, 6 :: real]) invhmat u = Inr (mat_vec invhmat u) \<and>
                 length (mat_vec invhmat u) = length [3, 0, 6 :: real] \<and>
                 mat_vec h (mat_vec invhmat u) = u \<and>
                 (\<forall>x. length x = length [3, 0, 6 :: real] \<and> mat_vec h x = u
                    \<longrightarrow> x = mat_vec invhmat u))"
    by blast
  have l3: "length [3, 0, 6 :: real] = 3" by simp
  from h hmat_3 have h3: "h = [[1, 0, 0], [- 1, 3, - 1], [0, 0, 1]]"
    by (simp only: l3 sum.inject)
  have i3: "inv_3 h = Inr [[1, 0, 0], [1 / 3, 1 / 3, 1 / 3], [0, 0, 1]]"
    by (simp add: h3 inv_3_def)
  from run [unfolded l3] i3 have
    nb: "implicit_notebook inv_3 1 5 8 2 [3, 0, 6]
          = implicit_loop 3 [[1, 0, 0], [1 / 3, 1 / 3, 1 / 3], [0, 0, 1]] 2 [3, 0, 6]"
    and st: "implicit_step 3 [[1, 0, 0], [1 / 3, 1 / 3, 1 / 3], [0, 0, 1]] [3, 0, 6]
          = Inr (mat_vec [[1, 0, 0], [1 / 3, 1 / 3, 1 / 3], [0, 0, 1]] [3, 0, 6])"
    and sol: "mat_vec h (mat_vec [[1, 0, 0], [1 / 3, 1 / 3, 1 / 3], [0, 0, 1]] [3, 0, 6]) = [3, 0, 6]"
    by simp_all
  have mv: "mat_vec [[1, 0, 0], [1 / 3, 1 / 3, 1 / 3], [0, 0, 1]] [3, 0, 6] = [3, 3, 6]"
    by (simp add: mat_vec_def dot_def)
  show ?thesis
    using len inv_spec_3 hmat_3 i3 [unfolded h3] nb st sol [unfolded h3 mv]
    by (simp only: l3 mv impl_2 simp_thms)
qed

section \<open>The first wave step\<close>

text \<open>The first pass never reads \<open>uu_old\<close>, which still holds the array of NaN.\<close>

lemma wave_first_step_ignores_uu_old:
  "uu_cur s = uu_cur s' \<Longrightarrow>
   wave_step grv deltat_sec deltax bathy_a 0 s = wave_step grv deltat_sec deltax bathy_a 0 s'"
  by (simp add: wave_step_def wave_rhs_def Let_def)

text \<open>
  With no initial velocity the field one step back equals the field one step ahead.
  Putting the new value \<open>x\<close> in the place of the older one in the two-level step gives
  an equation whose only solution is \<open>first_step_zero_velocity\<close>.
\<close>

lemma zero_velocity_form:
  "(- 1 * x + 2 * prev ! j
      + (sqrt (grv * bathy_a ! j) * deltat_sec / deltax) ^ 2
          * (prev ! (j + 1) - 2 * prev ! j + prev ! (j - 1))
      + (sqrt grv * deltat_sec / (2 * deltax)) ^ 2
          * ((bathy_a ! (j + 1) - bathy_a ! (j - 1)) * (prev ! (j + 1) - prev ! (j - 1))) = x)
   \<longleftrightarrow> x = first_step_zero_velocity grv deltat_sec deltax bathy_a prev j"
  by (auto simp add: first_step_zero_velocity_def Let_def field_simps)

text \<open>
  The first pass of the loop halves the first spatial term and not the second: it is off
  the zero-velocity form by half of the depth-gradient term.
\<close>

lemma wave_first_step_excess:
  "wave_interior grv deltat_sec deltax bathy_a 0 prev2 prev j
     - first_step_zero_velocity grv deltat_sec deltax bathy_a prev j
   = (1 / 2) * (sqrt grv * deltat_sec / (2 * deltax)) ^ 2
       * ((bathy_a ! (j + 1) - bathy_a ! (j - 1)) * (prev ! (j + 1) - prev ! (j - 1)))"
proof -
  define c where "c = (sqrt grv * deltat_sec / (2 * deltax)) ^ 2
       * ((bathy_a ! (j + 1) - bathy_a ! (j - 1)) * (prev ! (j + 1) - prev ! (j - 1)))"
  define l where "l = (sqrt (grv * bathy_a ! j) * deltat_sec / deltax) ^ 2
       * (prev ! (j + 1) - 2 * prev ! j + prev ! (j - 1))"
  have "wave_interior grv deltat_sec deltax bathy_a 0 prev2 prev j = prev ! j + (1 / 2) * l + c"
    by (simp add: wave_interior_def Let_def c_def l_def)
  moreover have "first_step_zero_velocity grv deltat_sec deltax bathy_a prev j
      = prev ! j + (1 / 2) * (l + c)"
    by (simp add: first_step_zero_velocity_def Let_def c_def l_def)
  ultimately have "wave_interior grv deltat_sec deltax bathy_a 0 prev2 prev j
     - first_step_zero_velocity grv deltat_sec deltax bathy_a prev j = (1 / 2) * c"
    by (simp only:) (simp add: field_simps)
  then show ?thesis by (simp add: c_def)
qed

text \<open>
  C6.  The specification takes the first pass of the wave loop to be the zero-velocity
  form, the previous field plus one half of both spatial terms.  The loop does not
  compute it: on three points with depths \<open>1, 1, 3\<close> and field \<open>0, 0, 1\<close> (\<open>grv = 4\<close>,
  both steps \<open>1\<close>) its first pass writes \<open>4\<close> at the interior point, where the
  zero-velocity form is \<open>3\<close>.
\<close>

theorem wave_first_step_keeps_full_cross_term:
  "wave_step 4 1 1 [1, 1, 3] 0 \<lparr>uu_old = [0, 0, 0], uu_cur = [0, 0, 1]\<rparr>
     = Inr \<lparr>uu_old = [0, 0, 1], uu_cur = [1, 4, 1]\<rparr> \<and>
   first_step_zero_velocity 4 1 1 [1, 1, 3] [0, 0, 1] 1 = 3"
  by (simp add: first_step_zero_velocity_def wave_step_def wave_rhs_def sp_term1_def
      sp_term2_def fac1_def fac2_def map3_def slice_0_m2_def slice_1_m1_def slice_2_def
      set_slice_1_m1_def Let_def power_divide)

text \<open>
  C9.  One pass of the implicit loop leaves the first and the last entry of any field
  as they were.  The run does not depend on the two declared Dirichlet constants, and
  after any number of passes the boundary values are those of the initial field: on
  the left the baseline plus the spill value, which differs from the declared constant
  \<open>uu_left_dirich = uu_spill\<close> whenever the baseline is not zero.
\<close>

theorem implicit_boundary_is_initial_field:
  assumes "2 \<le> length (arange 0 stop deltax)" and "spill_scale \<noteq> 0"
    and "inv_spec linalg_inv"
    and "hmat alpha (length (arange 0 stop deltax)) = Inr h"
    and "linalg_inv h = Inr invhmat"
  shows "(\<forall>v. length v = length (arange 0 stop deltax) \<longrightarrow>
            (\<exists>v'. implicit_step (length (arange 0 stop deltax)) invhmat v = Inr v' \<and>
                  v' ! 0 = v ! 0 \<and>
                  v' ! (length (arange 0 stop deltax) - 1)
                    = v ! (length (arange 0 stop deltax) - 1))) \<and>
         (\<forall>l r. implicit_notebook linalg_inv alpha l r nsteps
                   (uu_0 uu_base uu_spill spill_scale (arange 0 stop deltax))
               = implicit_notebook linalg_inv alpha uu_spill uu_base nsteps
                   (uu_0 uu_base uu_spill spill_scale (arange 0 stop deltax))) \<and>
         (\<exists>v. implicit_notebook linalg_inv alpha uu_spill uu_base nsteps
                 (uu_0 uu_base uu_spill spill_scale (arange 0 stop deltax)) = Inr v \<and>
              v ! 0 = uu_0 uu_base uu_spill spill_scale (arange 0 stop deltax) ! 0 \<and>
              v ! (length (arange 0 stop deltax) - 1)
                = uu_0 uu_base uu_spill spill_scale (arange 0 stop deltax)
                    ! (length (arange 0 stop deltax) - 1) \<and>
              v ! 0 = uu_base + uu_spill \<and>
              (uu_base \<noteq> 0 \<longrightarrow> v ! 0 \<noteq> uu_spill))"
proof -
  let ?xgrid = "arange 0 stop deltax"
  let ?n = "length ?xgrid"
  let ?u0 = "uu_0 uu_base uu_spill spill_scale ?xgrid"
  have lu: "length ?u0 = ?n" by (rule length_uu_0)
  from assms(1) have ne: "?xgrid \<noteq> []" by auto
  have sq: "is_square ?n h"
    using assms(1,4) by (rule hmat_entries(1))
  from assms(3,5) have "is_inverse (length h) h invhmat"
    by (simp add: inv_spec_def)
  with sq have isinv: "is_inverse ?n h invhmat"
    by (simp add: is_square_length)
  have step: "\<exists>v'. implicit_step ?n invhmat v = Inr v' \<and> v' ! 0 = v ! 0 \<and>
                  v' ! (?n - 1) = v ! (?n - 1)"
    if "length v = ?n" for v
    using implicit_step_boundary(1,4,5) [OF assms(1,4) isinv that] by blast
  have nb: "implicit_notebook linalg_inv alpha l r nsteps ?u0 = implicit_loop ?n invhmat nsteps ?u0"
    for l r
    using assms(4,5) by (simp add: implicit_notebook_def Let_def lu)
  from implicit_loop_inv [OF assms(1,4) isinv lu, of nsteps]
  obtain v where v: "implicit_loop ?n invhmat nsteps ?u0 = Inr v"
    and v0: "v ! 0 = ?u0 ! 0" and vl: "v ! (?n - 1) = ?u0 ! (?n - 1)"
    by blast
  have "?u0 ! 0 = uu_base + uu_spill * exp (- (1 / 2) * (?xgrid ! 0) ^ 2 / spill_scale ^ 2)"
    using ne by (intro nth_uu_0) simp
  also have "\<dots> = uu_base + uu_spill"
    by (simp add: arange_0_nth0 [OF ne])
  finally have u00: "?u0 ! 0 = uu_base + uu_spill" .
  show ?thesis
    using step nb v v0 vl u00 by auto
qed

theorem implicit_boundary_is_initial_field_witness:
  "2 \<le> length (arange 0 3 1) \<and> (1 :: real) \<noteq> 0 \<and> inv_spec inv_3 \<and>
   hmat 1 (length (arange 0 3 1)) = Inr [[1, 0, 0], [- 1, 3, - 1], [0, 0, 1]] \<and>
   inv_3 [[1, 0, 0], [- 1, 3, - 1], [0, 0, 1]] = Inr [[1, 0, 0], [1 / 3, 1 / 3, 1 / 3], [0, 0, 1]] \<and>
   implicit_step 3 [[1, 0, 0], [1 / 3, 1 / 3, 1 / 3], [0, 0, 1]] [3, 0, 6] = Inr [3, 3, 6] \<and>
   (\<exists>v. implicit_notebook inv_3 1 (56 / 100) (1 / 1000) 2
           (uu_0 (1 / 1000) (56 / 100) 1 (arange 0 3 1)) = Inr v \<and>
        v ! 0 = 561 / 1000 \<and> v ! 0 \<noteq> 56 / 100)"
proof -
  have l3: "length (arange 0 3 1) = 3" by (simp add: arange_3)
  have len: "2 \<le> length (arange 0 3 1)" by (simp add: l3)
  have sc: "(1 :: real) \<noteq> 0" by simp
  have hm: "hmat 1 (length (arange 0 3 1)) = Inr [[1, 0, 0], [- 1, 3, - 1], [0, 0, 1]]"
    by (simp only: l3 hmat_3)
  have iv: "inv_3 [[1, 0, 0], [- 1, 3, - 1], [0, 0, 1]]
      = Inr [[1, 0, 0], [1 / 3, 1 / 3, 1 / 3], [0, 0, 1]]"
    by (simp add: inv_3_def)
  note inst = implicit_boundary_is_initial_field [OF len sc inv_spec_3 hm iv,
      of 2 "1 / 1000" "56 / 100"]
  from inst obtain v where
    "implicit_notebook inv_3 1 (56 / 100) (1 / 1000) 2
       (uu_0 (1 / 1000) (56 / 100) 1 (arange 0 3 1)) = Inr v"
    and "v ! 0 = 1 / 1000 + 56 / 100"
    by blast
  then have "\<exists>v. implicit_notebook inv_3 1 (56 / 100) (1 / 1000) 2
           (uu_0 (1 / 1000) (56 / 100) 1 (arange 0 3 1)) = Inr v \<and>
        v ! 0 = 561 / 1000 \<and> v ! 0 \<noteq> 56 / 100"
    by (intro exI [of _ v]) simp
  moreover have "implicit_step 3 [[1, 0, 0], [1 / 3, 1 / 3, 1 / 3], [0, 0, 1]] [3, 0, 6] = Inr [3, 3, 6]"
    by (simp add: implicit_step_def mat_vec_def dot_def Let_def)
  ultimately show ?thesis
    using len sc inv_spec_3 hm iv by blast
qed

section \<open>Clamped heights\<close>

text \<open>
  C10.  With a non-zero horizontal speed and at least one time level the notebook runs
  without an error, and after any number \<open>n\<close> of passes of its loop every entry from
  \<open>1\<close> to \<open>n\<close> of both height arrays is a maximum with zero, hence not negative: the
  analytic height is the clamped parabola, and the numerical height is the clamped
  Euler step taken from the stored, already clamped, entry before it.  The loop of the
  notebook is the case \<open>n = nsteps - 1\<close>.  The first entries hold the initial height,
  so when that is not negative (it is zero in the notebook) no stored height is.
\<close>

theorem heights_clamped_after_every_step:
  assumes "uu0 \<noteq> 0" and "0 < nsteps" and "n < nsteps"
  shows "\<exists>s0 s. ballistic_init nsteps xx0 zz0 = Inr s0 \<and>
           euler_loop uu0 ww0 grv deltat n s0 = Inr s \<and>
           (n = nsteps - 1 \<longrightarrow> ballistic xx0 zz0 uu0 ww0 grv deltat nsteps = Inr s) \<and>
           length (nmr_zzfull s) = nsteps \<and> length (atic_zzfull s) = nsteps \<and>
           nmr_zzfull s ! 0 = zz0 \<and> atic_zzfull s ! 0 = zz0 \<and>
           (\<forall>k. 1 \<le> k \<and> k \<le> n \<longrightarrow>
              nmr_zzfull s ! k
                = max (nmr_zzfull s ! (k - 1) + deltat * (ww0 - grv * real k * deltat)) 0 \<and>
              atic_zzfull s ! k
                = max (- (grv / 2) * (1 / uu0 ^ 2) * (uu0 * real k * deltat) ^ 2
                         + (ww0 / uu0) * (uu0 * real k * deltat)) 0 \<and>
              0 \<le> nmr_zzfull s ! k \<and> 0 \<le> atic_zzfull s ! k) \<and>
           (n = nsteps - 1 \<and> 0 \<le> zz0 \<longrightarrow>
              list_all (\<lambda>z. 0 \<le> z) (nmr_zzfull s) \<and> list_all (\<lambda>z. 0 \<le> z) (atic_zzfull s))"
proof -
  define s0 where "s0 = \<lparr>xxfull = (replicate nsteps 0)[0 := xx0],
                nmr_zzfull = (replicate nsteps 0)[0 := zz0],
                atic_zzfull = (replicate nsteps 0)[0 := zz0]\<rparr>"
  have init: "ballistic_init nsteps xx0 zz0 = Inr s0"
    using assms(2) by (simp add: ballistic_init_def s0_def)
  have lens: "length (xxfull s0) = nsteps" "length (nmr_zzfull s0) = nsteps"
    "length (atic_zzfull s0) = nsteps"
    by (simp_all add: s0_def)
  have z0: "nmr_zzfull s0 ! 0 = zz0" "atic_zzfull s0 ! 0 = zz0"
    using assms(2) by (simp_all add: s0_def)
  from euler_loop_inv [OF lens assms(1) assms(3), of ww0 grv deltat]
  obtain s where s: "euler_loop uu0 ww0 grv deltat n s0 = Inr s"
    and inv: "euler_inv uu0 ww0 grv deltat nsteps n s0 s"
    by blast
  have run: "ballistic xx0 zz0 uu0 ww0 grv deltat nsteps = Inr s" if "n = nsteps - 1"
    using that init s by (simp add: ballistic_def)
  from inv have entries: "nmr_zzfull s ! k
                = max (nmr_zzfull s ! (k - 1) + deltat * (ww0 - grv * real k * deltat)) 0 \<and>
              atic_zzfull s ! k
                = max (- (grv / 2) * (1 / uu0 ^ 2) * (uu0 * real k * deltat) ^ 2
                         + (ww0 / uu0) * (uu0 * real k * deltat)) 0"
    if "1 \<le> k \<and> k \<le> n" for k
    using that unfolding euler_inv_def by blast
  have nonneg: "0 \<le> nmr_zzfull s ! k \<and> 0 \<le> atic_zzfull s ! k" if k: "1 \<le> k \<and> k \<le> n" for k
  proof -
    from entries [OF k] have
      "nmr_zzfull s ! k
         = max (nmr_zzfull s ! (k - 1) + deltat * (ww0 - grv * real k * deltat)) 0"
      "atic_zzfull s ! k
         = max (- (grv / 2) * (1 / uu0 ^ 2) * (uu0 * real k * deltat) ^ 2
                         + (ww0 / uu0) * (uu0 * real k * deltat)) 0"
      by simp_all
    then show ?thesis by (metis max.cobounded2)
  qed
  from inv have fin: "length (nmr_zzfull s) = nsteps" "length (atic_zzfull s) = nsteps"
    "nmr_zzfull s ! 0 = zz0" "atic_zzfull s ! 0 = zz0"
    by (simp_all add: euler_inv_def z0)
  have all: "list_all (\<lambda>z. 0 \<le> z) (nmr_zzfull s) \<and> list_all (\<lambda>z. 0 \<le> z) (atic_zzfull s)"
    if "n = nsteps - 1 \<and> 0 \<le> zz0"
  proof -
    have "0 \<le> nmr_zzfull s ! k \<and> 0 \<le> atic_zzfull s ! k" if "k < nsteps" for k
    proof (cases "k = 0")
      case True
      with fin \<open>n = nsteps - 1 \<and> 0 \<le> zz0\<close> show ?thesis by simp
    next
      case False
      with that \<open>n = nsteps - 1 \<and> 0 \<le> zz0\<close> have "1 \<le> k \<and> k \<le> n" by auto
      then show ?thesis by (rule nonneg)
    qed
    with fin show ?thesis by (simp add: list_all_length)
  qed
  from init s run entries nonneg fin all show ?thesis by blast
qed

theorem heights_clamped_after_every_step_witness:
  "(1 :: real) \<noteq> 0 \<and> (0 :: nat) < 3 \<and> (2 :: nat) < 3 \<and>
   ballistic 0 0 1 (- 3) (- 2) 1 3
     = Inr \<lparr>xxfull = [0, 1, 2], nmr_zzfull = [0, 0, 1], atic_zzfull = [0, 0, 0]\<rparr> \<and>
   list_all (\<lambda>z. 0 \<le> z) [0, 0, 1 :: real] \<and>
   - (- 2 / 2) * (1 / 1 ^ 2) * (1 * real 1 * 1) ^ 2 + (- 3 / 1) * (1 * real 1 * 1) = (- 2 :: real) \<and>
   (0 :: real) + 1 * (- 3 - (- 2) * real 1 * 1) = - 1 \<and>
   max ((0 :: real) + 1 * (- 3 - (- 2) * real 2 * 1)) 0 = 1"
  using heights_clamped_after_every_step [of 1 3 2 0 0 "- 3" "- 2" 1] ballistic_3
  by simp

section \<open>Sign and mass of the explicit scheme\<close>

text \<open>
  The coefficient of the scheme is \<open>alpha = D * dt / dx\<^sup>2\<close>.  A diffusion coefficient
  and a time step that are not negative give a coefficient that is not negative.
\<close>

lemma ftcs_alpha_nonneg:
  assumes "0 \<le> bigd" and "0 \<le> deltat_sec"
    and "ftcs_alpha bigd deltat_sec deltax = Inr alpha"
  shows "0 \<le> alpha"
proof -
  from assms(3) have "alpha = bigd * deltat_sec / deltax ^ 2"
    by (simp add: ftcs_alpha_def split: if_splits)
  with assms(1,2) show ?thesis by simp
qed

text \<open>
  C7.  For the coefficient \<open>alpha = D * dt / dx\<^sup>2\<close> of a diffusion, which is not negative,
  with \<open>alpha \<le> 1/2\<close>, non-negative Dirichlet constants and a non-negative field, the
  field after any number of steps is non-negative and nowhere above the largest of the
  two constants and the initial values; so the total mass is bounded, whatever the
  number of steps, by the grid step times the number of interior points times that
  largest value.
\<close>

theorem ftcs_stays_nonnegative_and_bounded:
  assumes "0 \<le> alpha" and "alpha \<le> 1 / 2"
    and "0 \<le> uu_left_dirich" and "0 \<le> uu_right_dirich"
    and "u \<noteq> []" and "\<forall>x\<in>set u. 0 \<le> x"
  shows "\<exists>v. ftcs_loop alpha uu_left_dirich uu_right_dirich n u = Inr v \<and>
           (\<forall>x\<in>set v. 0 \<le> x \<and> x \<le> Max (set (uu_left_dirich # uu_right_dirich # u))) \<and>
           \<bar>mass deltax v\<bar>
             \<le> \<bar>deltax\<bar> * real (length u - 2) * Max (set (uu_left_dirich # uu_right_dirich # u))"
proof -
  let ?M = "Max (set (uu_left_dirich # uu_right_dirich # u))"
  have M: "x \<le> ?M" if "x \<in> set (uu_left_dirich # uu_right_dirich # u)" for x
    using that by (intro Max_ge) simp_all
  obtain v where v: "ftcs_loop alpha uu_left_dirich uu_right_dirich n u = Inr v"
    and lv: "length v = length u"
    using ftcs_loop_inv [OF assms(5), of alpha uu_left_dirich uu_right_dirich n] by blast
  have "\<forall>x\<in>set u. 0 \<le> x \<and> x \<le> ?M"
    using assms(6) M by simp
  from ftcs_loop_between [OF assms(1,2) assms(3) _ assms(4) _ this v]
  have bv: "\<forall>x\<in>set v. 0 \<le> x \<and> x \<le> ?M"
    using M by simp
  then have "\<forall>x\<in>set (slice_1_m1 v). 0 \<le> x \<and> x \<le> ?M"
    using set_slice_1_m1 [of v] by blast
  from sum_list_between [OF this]
  have s: "0 \<le> sum_list (slice_1_m1 v)" "sum_list (slice_1_m1 v) \<le> real (length u - 2) * ?M"
    by (simp_all add: length_slices lv)
  have "\<bar>mass deltax v\<bar> = \<bar>deltax\<bar> * sum_list (slice_1_m1 v)"
    using s(1) by (simp add: mass_def abs_mult)
  also have "\<dots> \<le> \<bar>deltax\<bar> * (real (length u - 2) * ?M)"
    using s(2) by (intro mult_left_mono) simp_all
  finally have "\<bar>mass deltax v\<bar> \<le> \<bar>deltax\<bar> * real (length u - 2) * ?M"
    by (simp add: mult.assoc)
  with v bv show ?thesis by blast
qed

theorem ftcs_stays_nonnegative_and_bounded_witness:
  "(0 :: real) \<le> 1 / 4 \<and> (1 / 4 :: real) \<le> 1 / 2 \<and> (0 :: real) \<le> 7 \<and> (0 :: real) \<le> 9 \<and>
   [1, 2, 4 :: real] \<noteq> [] \<and> list_all (\<lambda>x. 0 \<le> x) [1, 2, 4 :: real] \<and>
   ftcs_loop (1 / 4) 7 9 2 [1, 2, 4] = Inr [7, 41 / 8, 9] \<and>
   mass 1000 [7, 41 / 8, 9] = 5125 \<and>
   \<bar>1000 :: real\<bar> * real (length [1, 2, 4 :: real] - 2) * Max (set [7, 9, 1, 2, 4 :: real]) = 9000"
proof -
  have h: "(0 :: real) \<le> 1 / 4" "(1 / 4 :: real) \<le> 1 / 2" "(0 :: real) \<le> 7" "(0 :: real) \<le> 9"
    "[1, 2, 4 :: real] \<noteq> []" "\<forall>x\<in>set [1, 2, 4 :: real]. 0 \<le> x"
    by simp_all
  from ftcs_stays_nonnegative_and_bounded [OF h, of 2 1000]
  obtain v where "ftcs_loop (1 / 4) 7 9 2 [1, 2, 4] = Inr v"
    and "\<bar>mass 1000 v\<bar>
           \<le> \<bar>1000\<bar> * real (length [1, 2, 4 :: real] - 2) * Max (set [7, 9, 1, 2, 4 :: real])"
    by blast
  then have "ftcs_loop (1 / 4) 7 9 2 [1, 2, 4] = Inr [7, 41 / 8, 9]"
    and "\<bar>mass 1000 [7, 41 / 8, 9]\<bar>
           \<le> \<bar>1000\<bar> * real (length [1, 2, 4 :: real] - 2) * Max (set [7, 9, 1, 2, 4 :: real])"
    by (simp_all add: ftcs_2)
  moreover have "mass 1000 [7, 41 / 8, 9] = 5125"
    by (simp add: mass_def slice_1_m1_def)
  ultimately show ?thesis
    by simp
qed

section \<open>Centred against one-sided differences\<close>

text \<open>
  C8.  On the grid of the notebook with any step from its default \<open>0.2\<close> down, the
  estimator applied to the samples of the sine returns its three estimates, and the
  maximum absolute error against the cosine of the centred estimate is strictly
  smaller than that of the forward estimate and than that of the backward estimate.
\<close>

theorem centred_error_smallest:
  assumes "0 < deltax" and "deltax \<le> 1 / 5"
  shows "\<exists>fd bd cd.
           fd_dudx deltax (sinefunc (gridx deltax)) = Inr fd \<and>
           bd_dudx deltax (sinefunc (gridx deltax)) = Inr bd \<and>
           cd_dudx deltax (sinefunc (gridx deltax)) = Inr cd \<and>
           max_abs_error cd (cosinefunc (gridx deltax)) < max_abs_error fd (cosinefunc (gridx deltax)) \<and>
           max_abs_error cd (cosinefunc (gridx deltax)) < max_abs_error bd (cosinefunc (gridx deltax))"
proof -
  let ?h = deltax
  let ?u = "sinefunc (gridx ?h)"
  let ?t = "cosinefunc (gridx ?h)"
  let ?N = "length (gridx ?h)"
  from assms have h1: "?h \<le> 1" by simp
  have lu: "length ?u = ?N" and lt: "length ?t = ?N"
    by (simp_all add: sinefunc_def cosinefunc_def)
  obtain m where m: "1 \<le> m" "m + 1 < ?N" "pi / 6 \<le> real m * ?h" "real m * ?h \<le> 5 * pi / 6"
    using gridx_mid_point [OF assms] by blast
  from m have N3: "3 \<le> ?N" by simp
  then have N2: "2 \<le> length ?u" by (simp add: lu)
  from dudx_entries [OF N2, of ?h] obtain fd bd cd where
    res: "fd_dudx ?h ?u = Inr fd" "bd_dudx ?h ?u = Inr bd" "cd_dudx ?h ?u = Inr cd"
    and len: "length fd = ?N" "length bd = ?N" "length cd = ?N"
    and fd: "\<forall>i. i + 1 < ?N \<longrightarrow> fd ! i = (?u ! (i + 1) - ?u ! i) / ?h"
    and bd: "\<forall>i. 1 \<le> i \<and> i < ?N \<longrightarrow> bd ! i = (?u ! i - ?u ! (i - 1)) / ?h"
    and cd: "\<forall>i. 1 \<le> i \<and> i + 1 < ?N \<longrightarrow> cd ! i = (?u ! (i + 1) - ?u ! (i - 1)) / (2 * ?h)"
    and cd0: "cd ! 0 = (?u ! 1 - ?u ! 0) / ?h"
    and cdl: "cd ! (?N - 1) = (?u ! (?N - 1) - ?u ! (?N - 2)) / ?h"
    unfolding lu by blast
  have u: "?u ! i = sin (real i * ?h)" and t: "?t ! i = cos (real i * ?h)" if "i < ?N" for i
    using sine_samples [OF that] by simp_all
  have up: "real (i + 1) * ?h = real i * ?h + ?h" for i
    by (simp add: algebra_simps)
  have down: "real (i - 1) * ?h = real i * ?h - ?h" if "1 \<le> i" for i
    using that by (simp add: of_nat_diff algebra_simps)
  \<comment> \<open>the centred estimate is within \<open>2/3 * h\<^sup>2\<close> of the cosine everywhere\<close>
  have cd_err: "\<bar>cd ! i - ?t ! i\<bar> \<le> 2 / 3 * ?h ^ 2" if i: "i < ?N" for i
  proof -
    consider "i = 0" | "i = ?N - 1" | "1 \<le> i" "i + 1 < ?N"
      using i by linarith
    then show ?thesis
    proof cases
      case 1
      from N3 have "0 < ?N" and "1 < ?N" by linarith+
      from u [OF this(1)] u [OF this(2)] t [OF this(1)]
      have "cd ! 0 - ?t ! 0 = (sin (0 + ?h) - sin 0) / ?h - cos 0"
        using cd0 by simp
      moreover have "\<bar>(sin (0 + ?h) - sin 0) / ?h - cos 0\<bar> \<le> 2 / 3 * ?h ^ 2"
        using assms(1) h1 by (intro one_sided_bound(1)) simp_all
      ultimately show ?thesis using 1 by simp
    next
      case 2
      let ?x = "real (?N - 1) * ?h"
      have "real (?N - 2) * ?h = ?x - ?h"
        using N3 by (simp add: of_nat_diff algebra_simps)
      moreover from N3 have "?N - 1 < ?N" and "?N - 2 < ?N" by linarith+
      note u [OF this(1)] u [OF this(2)] t [OF this(1)]
      ultimately have "cd ! (?N - 1) - ?t ! (?N - 1) = (sin ?x - sin (?x - ?h)) / ?h - cos ?x"
        using cdl by simp
      moreover have "\<bar>(sin ?x - sin (?x - ?h)) / ?h - cos ?x\<bar> \<le> 2 / 3 * ?h ^ 2"
        using assms(1) h1 gridx_last_sin [OF assms(1)] by (intro one_sided_bound(2))
      ultimately show ?thesis using 2 by simp
    next
      case 3
      let ?x = "real i * ?h"
      have "cd ! i - ?t ! i = (sin (?x + ?h) - sin (?x - ?h)) / (2 * ?h) - cos ?x"
        using 3 i cd by (simp add: u t up [symmetric] down [symmetric])
      moreover have "\<bar>(sin (?x + ?h) - sin (?x - ?h)) / (2 * ?h) - cos ?x\<bar> \<le> ?h ^ 2 / 6"
        using assms(1) by (rule centred_bound)
      moreover have "0 \<le> ?h ^ 2" by simp
      ultimately show ?thesis by linarith
    qed
  qed
  have cd_max: "max_abs_error cd ?t \<le> 2 / 3 * ?h ^ 2"
    using len(3) lt _ cd_err by (rule max_abs_error_le) (use N3 in linarith)
  \<comment> \<open>at a grid point where the sine is at least \<open>1/2\<close> both one-sided estimates are further off\<close>
  let ?x = "real m * ?h"
  have half: "1 / 2 \<le> sin ?x" using m(3,4) by (rule sin_ge_half)
  have "fd ! m - ?t ! m = (sin (?x + ?h) - sin ?x) / ?h - cos ?x"
    using m fd by (simp add: u t up [symmetric])
  moreover have "2 / 3 * ?h ^ 2 < \<bar>(sin (?x + ?h) - sin ?x) / ?h - cos ?x\<bar>"
    using assms half by (rule one_sided_lower(1))
  moreover have "\<bar>fd ! m - ?t ! m\<bar> \<le> max_abs_error fd ?t"
    using len(1) lt by (rule max_abs_error_ge) (use m in linarith)
  ultimately have fd_max: "2 / 3 * ?h ^ 2 < max_abs_error fd ?t" by simp
  have "bd ! m - ?t ! m = (sin ?x - sin (?x - ?h)) / ?h - cos ?x"
    using m bd by (simp add: u t down [symmetric])
  moreover have "2 / 3 * ?h ^ 2 < \<bar>(sin ?x - sin (?x - ?h)) / ?h - cos ?x\<bar>"
    using assms half by (rule one_sided_lower(2))
  moreover have "\<bar>bd ! m - ?t ! m\<bar> \<le> max_abs_error bd ?t"
    using len(2) lt by (rule max_abs_error_ge) (use m in linarith)
  ultimately have bd_max: "2 / 3 * ?h ^ 2 < max_abs_error bd ?t" by simp
  show ?thesis
    using res cd_max fd_max bd_max by (intro exI [of _ fd] exI [of _ bd] exI [of _ cd]) simp
qed

theorem centred_error_smallest_witness:
  "(0 :: real) < 1 / 5 \<and> (1 / 5 :: real) \<le> 1 / 5 \<and>
   (\<exists>fd bd cd.
      fd_dudx (1 / 5) (sinefunc (gridx (1 / 5))) = Inr fd \<and>
      bd_dudx (1 / 5) (sinefunc (gridx (1 / 5))) = Inr bd \<and>
      cd_dudx (1 / 5) (sinefunc (gridx (1 / 5))) = Inr cd \<and>
      max_abs_error cd (cosinefunc (gridx (1 / 5))) < max_abs_error fd (cosinefunc (gridx (1 / 5))) \<and>
      max_abs_error cd (cosinefunc (gridx (1 / 5))) < max_abs_error bd (cosinefunc (gridx (1 / 5))))"
proof -
  have h: "(0 :: real) < 1 / 5" "(1 / 5 :: real) \<le> 1 / 5" by simp_all
  from centred_error_smallest [OF h] h show ?thesis by blast
qed

end
